theory Spec2Isabelle
  imports Complex_Main "HOL-Library.Word"
begin

unbundle bit_operations_syntax

section \<open>JavaScript numbers\<close>

text \<open>
  A JavaScript number is an IEEE 754 binary64 value: not-a-number, an infinity, a zero
  of either sign, or a finite non-zero value. A finite value is carried by the rational
  it denotes (\<open>Fin 0\<close> is the positive zero). The arithmetic operators round the exact
  result to the nearest binary64 value, ties to even, as the language requires.
\<close>

datatype number = NaN | PosInf | NegInf | NegZero | Fin rat

definition pow_int :: "rat \<Rightarrow> int \<Rightarrow> rat" where
  "pow_int b e = (if 0 \<le> e then b ^ nat e else 1 / b ^ nat (- e))"

text \<open>The number of digits of a positive integer \<open>n\<close> in base \<open>b\<close>.\<close>

function ndigits :: "int \<Rightarrow> int \<Rightarrow> int" where
  "ndigits b n = (if n \<le> 0 \<or> b \<le> 1 then 0 else 1 + ndigits b (n div b))"
  by pat_completeness auto
termination
  by (relation "measure (\<lambda>(b, n). nat n)") (auto simp: int_div_less_self)

text \<open>The integer logarithm \<open>\<lfloor>log\<^sub>b q\<rfloor>\<close> of a positive rational.\<close>

definition ilog :: "int \<Rightarrow> rat \<Rightarrow> int" where
  "ilog b q = (if 1 \<le> q then ndigits b \<lfloor>q\<rfloor> - 1 else - ndigits b (\<lceil>1 / q\<rceil> - 1))"

definition round_half_even :: "rat \<Rightarrow> int" where
  "round_half_even x =
     (let f = \<lfloor>x\<rfloor>; r = x - of_int f
      in if r < 1 / 2 then f else if 1 / 2 < r then f + 1
         else if even f then f else f + 1)"

definition zero_of :: "bool \<Rightarrow> number" where
  "zero_of neg = (if neg then NegZero else Fin 0)"

definition inf_of :: "bool \<Rightarrow> number" where
  "inf_of neg = (if neg then NegInf else PosInf)"

text \<open>
  Rounding a magnitude \<open>a \<ge> 0\<close> with sign \<open>neg\<close> to binary64: 53 significant bits,
  least exponent \<open>-1074\<close> (subnormals), overflow to infinity from \<open>2\<^sup>1\<^sup>0\<^sup>2\<^sup>4\<close>.
\<close>

definition round64 :: "bool \<Rightarrow> rat \<Rightarrow> number" where
  "round64 neg a =
     (if a = 0 then zero_of neg
      else let ex = max (ilog 2 a - 52) (- 1074);
               r = of_int (round_half_even (a / pow_int 2 ex)) * pow_int 2 ex
           in if r = 0 then zero_of neg
              else if 2 ^ 1024 \<le> r then inf_of neg
              else Fin (if neg then - r else r))"

fun negative :: "number \<Rightarrow> bool" where
  "negative NegInf = True"
| "negative NegZero = True"
| "negative (Fin q) = (q < 0)"
| "negative _ = False"

fun magnitude :: "number \<Rightarrow> rat" where
  "magnitude (Fin q) = \<bar>q\<bar>"
| "magnitude _ = 0"

fun rat_of :: "number \<Rightarrow> rat" where
  "rat_of (Fin q) = q"
| "rat_of _ = 0"

fun is_inf :: "number \<Rightarrow> bool" where
  "is_inf PosInf = True"
| "is_inf NegInf = True"
| "is_inf _ = False"

fun is_zero :: "number \<Rightarrow> bool" where
  "is_zero NegZero = True"
| "is_zero (Fin q) = (q = 0)"
| "is_zero _ = False"

fun is_finite :: "number \<Rightarrow> bool" where
  "is_finite NegZero = True"
| "is_finite (Fin q) = True"
| "is_finite _ = False"

text \<open>The operators \<^verbatim>\<open>*\<close>, \<^verbatim>\<open>/\<close> and \<^verbatim>\<open>+\<close> on numbers.\<close>

definition mul :: "number \<Rightarrow> number \<Rightarrow> number" where
  "mul x y =
     (if x = NaN \<or> y = NaN then NaN
      else if is_inf x \<or> is_inf y
        then (if is_zero x \<or> is_zero y then NaN else inf_of (negative x \<noteq> negative y))
      else round64 (negative x \<noteq> negative y) (magnitude x * magnitude y))"

definition divide_num :: "number \<Rightarrow> number \<Rightarrow> number" where
  "divide_num x y =
     (if x = NaN \<or> y = NaN then NaN
      else if is_inf x then (if is_inf y then NaN else inf_of (negative x \<noteq> negative y))
      else if is_inf y then zero_of (negative x \<noteq> negative y)
      else if is_zero y
        then (if is_zero x then NaN else inf_of (negative x \<noteq> negative y))
      else round64 (negative x \<noteq> negative y) (magnitude x / magnitude y))"

definition add :: "number \<Rightarrow> number \<Rightarrow> number" where
  "add x y =
     (if x = NaN \<or> y = NaN then NaN
      else if is_inf x then (if is_inf y \<and> x \<noteq> y then NaN else x)
      else if is_inf y then y
      else let s = rat_of x + rat_of y
           in if s = 0 then zero_of (negative x \<and> negative y)
              else round64 (s < 0) \<bar>s\<bar>)"

text \<open>\<^verbatim>\<open>Math.floor\<close>: the floor of a binary64 value is a binary64 value.\<close>

fun floor_num :: "number \<Rightarrow> number" where
  "floor_num (Fin q) = Fin (of_int \<lfloor>q\<rfloor>)"
| "floor_num x = x"

text \<open>
  \<^verbatim>\<open>ToInt32\<close> and \<^verbatim>\<open>ToUint32\<close> yield the same 32 bits: not-a-number, the zeros and the
  infinities give 0, a finite value is truncated towards zero and taken modulo \<open>2\<^sup>3\<^sup>2\<close>.
\<close>

definition trunc :: "rat \<Rightarrow> int" where
  "trunc q = (if q < 0 then - \<lfloor>- q\<rfloor> else \<lfloor>q\<rfloor>)"

fun to_word32 :: "number \<Rightarrow> 32 word" where
  "to_word32 (Fin q) = word_of_int (trunc q)"
| "to_word32 _ = 0"

text \<open>\<^verbatim>\<open>x | y\<close> reads the bits as a signed, \<^verbatim>\<open>x >>> y\<close> as an unsigned 32-bit integer.\<close>

definition bit_or :: "number \<Rightarrow> number \<Rightarrow> number" where
  "bit_or x y = Fin (of_int (sint (to_word32 x OR to_word32 y)))"

definition ushr :: "number \<Rightarrow> number \<Rightarrow> number" where
  "ushr x y = Fin (of_int (uint (drop_bit (unat (to_word32 y AND 31)) (to_word32 x))))"

section \<open>Text to number\<close>

text \<open>
  \<^verbatim>\<open>StringToNumber\<close>: white space is trimmed; the empty text is 0; a radix literal
  (\<^verbatim>\<open>0x\<close>, \<^verbatim>\<open>0o\<close>, \<^verbatim>\<open>0b\<close>) has no sign; a decimal literal has an optional sign, digits
  with an optional fraction and an optional exponent, or is \<^verbatim>\<open>Infinity\<close>; any other text
  is not-a-number. The white space characters are those with a code below 256.
\<close>

definition is_ws :: "char \<Rightarrow> bool" where
  "is_ws c = (c \<in> set [CHR 0x09, CHR 0x0A, CHR 0x0B, CHR 0x0C, CHR 0x0D, CHR 0x20, CHR 0xA0])"

definition trim :: "string \<Rightarrow> string" where
  "trim s = rev (dropWhile is_ws (rev (dropWhile is_ws s)))"

definition is_digit :: "char \<Rightarrow> bool" where
  "is_digit c = (c \<in> set ''0123456789'')"

definition digit_value :: "char \<Rightarrow> int" where
  "digit_value c =
     (if c \<in> set ''0123456789'' then of_char c - 48
      else if c \<in> set ''abcdef'' then of_char c - 87
      else if c \<in> set ''ABCDEF'' then of_char c - 55
      else 0)"

definition digits_value :: "int \<Rightarrow> string \<Rightarrow> int" where
  "digits_value b ds = foldl (\<lambda>a c. b * a + digit_value c) 0 ds"

definition radix_digits :: "int \<Rightarrow> string \<Rightarrow> int option" where
  "radix_digits b ds =
     (if ds \<noteq> [] \<and> list_all (\<lambda>c. c \<in> set (take (nat b) ''0123456789abcdef'')
                                   \<or> c \<in> set (take (nat b - 10) ''ABCDEF'')) ds
      then Some (digits_value b ds) else None)"

fun radix_literal :: "string \<Rightarrow> int option" where
  "radix_literal (z # x # ds) =
     (if z \<noteq> CHR ''0'' then None
      else if x = CHR ''x'' \<or> x = CHR ''X'' then radix_digits 16 ds
      else if x = CHR ''o'' \<or> x = CHR ''O'' then radix_digits 8 ds
      else if x = CHR ''b'' \<or> x = CHR ''B'' then radix_digits 2 ds
      else None)"
| "radix_literal _ = None"

text \<open>The exponent part: absent, or \<^verbatim>\<open>e\<close> with an optional sign and at least one digit.\<close>

fun exponent_part :: "string \<Rightarrow> int option" where
  "exponent_part [] = Some 0"
| "exponent_part (e # r) =
     (if e \<noteq> CHR ''e'' \<and> e \<noteq> CHR ''E'' then None
      else let (neg, ds) = (case r of
                 [] \<Rightarrow> (False, [])
               | c # r' \<Rightarrow> if c = CHR ''-'' then (True, r')
                           else if c = CHR ''+'' then (False, r') else (False, r))
           in if ds \<noteq> [] \<and> list_all is_digit ds
              then Some (if neg then - digits_value 10 ds else digits_value 10 ds)
              else None)"

text \<open>The mathematical value of an unsigned decimal literal.\<close>

definition decimal_literal :: "string \<Rightarrow> rat option" where
  "decimal_literal u =
     (let ip = takeWhile is_digit u; r1 = dropWhile is_digit u;
          fp = (case r1 of [] \<Rightarrow> [] | c # r \<Rightarrow> if c = CHR ''.'' then takeWhile is_digit r else []);
          r2 = (case r1 of [] \<Rightarrow> [] | c # r \<Rightarrow> if c = CHR ''.'' then dropWhile is_digit r else r1)
      in if ip = [] \<and> fp = [] then None
         else case exponent_part r2 of
                None \<Rightarrow> None
              | Some e \<Rightarrow>
                  Some ((of_int (digits_value 10 ip)
                         + of_int (digits_value 10 fp) / 10 ^ length fp) * pow_int 10 e))"

definition StringToNumber :: "string \<Rightarrow> number" where
  "StringToNumber str =
     (let s = trim str
      in if s = [] then Fin 0
         else case radix_literal s of
                Some n \<Rightarrow> round64 False (of_int n)
              | None \<Rightarrow>
                  let (neg, u) = (case s of
                         [] \<Rightarrow> (False, [])
                       | c # r \<Rightarrow> if c = CHR ''-'' then (True, r)
                                  else if c = CHR ''+'' then (False, r) else (False, s))
                  in if u = ''Infinity'' then inf_of neg
                     else case decimal_literal u of
                            None \<Rightarrow> NaN
                          | Some mv \<Rightarrow> round64 neg mv)"

section \<open>Number to text\<close>

text \<open>The decimal digits of a natural number, most significant first.\<close>

function dec_digits :: "int \<Rightarrow> string" where
  "dec_digits n =
     (if n < 10 then [char_of (48 + n)] else dec_digits (n div 10) @ [char_of (48 + n mod 10)])"
  by pat_completeness auto
termination
  by (relation "measure nat") (auto simp: int_div_less_self)

text \<open>
  \<^verbatim>\<open>Number::toString\<close> finds the least digit count \<open>k\<close>, with digits \<open>s\<close> and decimal
  exponent \<open>n\<close>, such that \<open>s \<times> 10\<^sup>n\<^sup>-\<^sup>k\<close> rounds to the value; among several \<open>s\<close> the
  closest one. The candidates for a given \<open>k\<close> are the two neighbours of the value.
\<close>

definition digit_candidates :: "rat \<Rightarrow> int \<Rightarrow> (int \<times> int) list" where
  "digit_candidates q k =
     (let n0 = ilog 10 q + 1;
          s1 = \<lfloor>q / pow_int 10 (n0 - k)\<rfloor>;
          c2 = (if s1 + 1 < 10 ^ nat k then (s1 + 1, n0) else (10 ^ nat (k - 1), n0 + 1));
          ok = (\<lambda>(s, n). round64 False (of_int s * pow_int 10 (n - k)) = Fin q);
          dist = (\<lambda>(s, n). \<bar>of_int s * pow_int 10 (n - k) - q\<bar>)
      in if ok (s1, n0) \<and> ok c2
           then (if dist c2 < dist (s1, n0) \<or> (dist c2 = dist (s1, n0) \<and> odd s1)
                 then [c2] else [(s1, n0)])
         else filter ok [(s1, n0), c2])"

fun shortest_digits :: "rat \<Rightarrow> int list \<Rightarrow> int \<times> int \<times> int" where
  "shortest_digits q [] = (17, \<lfloor>q / pow_int 10 (ilog 10 q - 16)\<rfloor>, ilog 10 q + 1)"
| "shortest_digits q (k # ks) =
     (case digit_candidates q k of
        [] \<Rightarrow> shortest_digits q ks
      | (s, n) # _ \<Rightarrow> (k, s, n))"

definition positive_to_string :: "rat \<Rightarrow> string" where
  "positive_to_string q =
     (let (k, s, n) = shortest_digits q [1, 2, 3, 4, 5, 6, 7, 8, 9, 10, 11, 12, 13, 14, 15, 16, 17];
          ds = dec_digits s;
          ex = (\<lambda>e. CHR ''e'' # (if 0 \<le> e then CHR ''+'' else CHR ''-'') # dec_digits \<bar>e\<bar>)
      in if k \<le> n \<and> n \<le> 21 then ds @ replicate (nat (n - k)) CHR ''0''
         else if 0 < n \<and> n \<le> 21 then take (nat n) ds @ CHR ''.'' # drop (nat n) ds
         else if - 6 < n \<and> n \<le> 0 then ''0.'' @ replicate (nat (- n)) CHR ''0'' @ ds
         else if k = 1 then ds @ ex (n - 1)
         else hd ds # CHR ''.'' # tl ds @ ex (n - 1))"

fun NumberToString :: "number \<Rightarrow> string" where
  "NumberToString NaN = ''NaN''"
| "NumberToString PosInf = ''Infinity''"
| "NumberToString NegInf = ''-Infinity''"
| "NumberToString NegZero = ''0''"
| "NumberToString (Fin q) =
     (if q = 0 then ''0''
      else if q < 0 then CHR ''-'' # positive_to_string (- q)
      else positive_to_string q)"

section \<open>JavaScript values\<close>

text \<open>
  The values the two modules receive are the primitive values of a JSON document
  (\<^verbatim>\<open>null\<close>, booleans, numbers, strings) and \<^verbatim>\<open>undefined\<close>, which is what reading an
  absent property yields. On these the coercions \<^verbatim>\<open>ToNumber\<close>, \<^verbatim>\<open>ToString\<close> and \<^verbatim>\<open>ToBoolean\<close>
  of the language are total; arrays and objects in the place of a field value are
  outside the model.
\<close>

datatype jsval = Undefined | Null | Bool bool | Num number | Str string

fun ToNumber :: "jsval \<Rightarrow> number" where
  "ToNumber Undefined = NaN"
| "ToNumber Null = Fin 0"
| "ToNumber (Bool b) = (if b then Fin 1 else Fin 0)"
| "ToNumber (Num n) = n"
| "ToNumber (Str s) = StringToNumber s"

fun ToString :: "jsval \<Rightarrow> string" where
  "ToString Undefined = ''undefined''"
| "ToString Null = ''null''"
| "ToString (Bool b) = (if b then ''true'' else ''false'')"
| "ToString (Num n) = NumberToString n"
| "ToString (Str s) = s"

fun ToBoolean :: "jsval \<Rightarrow> bool" where
  "ToBoolean Undefined = False"
| "ToBoolean Null = False"
| "ToBoolean (Bool b) = b"
| "ToBoolean (Num n) = (n \<noteq> NaN \<and> \<not> is_zero n)"
| "ToBoolean (Str s) = (s \<noteq> [])"

section \<open>Characters used by the escaping functions\<close>

text \<open>
  JavaScript strings are modelled as \<^typ>\<open>string\<close> (lists of \<^typ>\<open>char\<close>): a character
  stands for a code unit below 256. All characters the source names are ASCII, and the
  functions below copy every other code unit unchanged.
\<close>

abbreviation backslash :: char where "backslash \<equiv> CHR 0x5C"
abbreviation quote :: char where "quote \<equiv> CHR 0x27"

section \<open>\<^verbatim>\<open>String.prototype.replace\<close> with a global character-class pattern\<close>

text \<open>
  \<^verbatim>\<open>s.replace(/[...]/g, f)\<close>: the pattern is one character class with the global flag,
  so the scan visits the characters from left to right; a character of the class is
  replaced by the text the callback returns for it, any other character is copied.
  The class is given as the list of its members.
\<close>

fun replace_class :: "char list \<Rightarrow> (char \<Rightarrow> string) \<Rightarrow> string \<Rightarrow> string" where
  "replace_class cls f [] = []"
| "replace_class cls f (c # cs) =
     (if c \<in> set cls then f c @ replace_class cls f cs else c # replace_class cls f cs)"

text \<open>The callback of all four functions: \<^verbatim>\<open>(c) => `\\${c}`\<close>.\<close>

definition prefixed :: "char \<Rightarrow> string" where
  "prefixed c = [backslash, c]"

subsection \<open>string.ts, lines 106 to 120\<close>

text \<open>\<^verbatim>\<open>/[\\':]/g\<close>\<close>

definition escapeFilterValue :: "string \<Rightarrow> string" where
  "escapeFilterValue s = replace_class [backslash, quote, CHR '':''] prefixed s"

text \<open>\<^verbatim>\<open>/[\\'[\],;]/g\<close>\<close>

definition escapeFilterDescription :: "string \<Rightarrow> string" where
  "escapeFilterDescription s =
     replace_class [backslash, quote, CHR ''['', CHR '']'', CHR '','', CHR '';''] prefixed s"

text \<open>\<^verbatim>\<open>/[\\' ]/g\<close>\<close>

definition escapeConcatFile :: "string \<Rightarrow> string" where
  "escapeConcatFile s = replace_class [backslash, quote, CHR '' ''] prefixed s"

text \<open>\<^verbatim>\<open>/[\\' |[\]]/g\<close>\<close>

definition escapeTeeComponent :: "string \<Rightarrow> string" where
  "escapeTeeComponent s =
     replace_class [backslash, quote, CHR '' '', CHR ''|'', CHR ''['', CHR '']''] prefixed s"

subsection \<open>The escaping rule in the specification's words\<close>

text \<open>
  Every character of the set \<open>S\<close> is prefixed with one backslash, every other character
  passes through unchanged.
\<close>

definition escape_spec :: "char set \<Rightarrow> string \<Rightarrow> string" where
  "escape_spec S s = concat (map (\<lambda>c. if c \<in> S then [backslash, c] else [c]) s)"

text \<open>
  Reading an escaped text back: a backslash makes the next character literal. It
  undoes every one of the four escapes, so exactly one backslash was added per
  escaped character and nothing else was changed.
\<close>

fun unescape :: "string \<Rightarrow> string" where
  "unescape [] = []"
| "unescape [c] = [c]"
| "unescape (c # d # cs) = (if c = backslash then d # unescape cs else c # unescape (d # cs))"

section \<open>Regular expressions\<close>

text \<open>
  The pattern constructs the source uses: a literal character, a character class, a
  sequence, the greedy quantifiers \<^verbatim>\<open>?\<close>, \<^verbatim>\<open>+\<close> and \<^verbatim>\<open>{n}\<close>, and a numbered capture
  group.
\<close>

datatype regex =
    Chr char
  | Class "char list"
  | Seq regex regex
  | Opt regex
  | Plus regex
  | Times nat regex
  | Group nat regex

text \<open>
  A matcher state is the text still to be read and the captures made so far. A matcher
  returns every way to match at the front of the text, in the order a backtracking
  engine tries them (greedy alternatives first); the engine takes the first.
\<close>

type_synonym captures = "nat \<rightharpoonup> string"
type_synonym mstate = "string \<times> captures"

definition progress :: "mstate \<Rightarrow> mstate \<Rightarrow> bool" where
  "progress st st' = (length (fst st') < length (fst st))"

text \<open>
  Further rounds of a \<^verbatim>\<open>+\<close> after the first: each must consume text, the longer
  matches come first, stopping here comes last.
\<close>

function further :: "(mstate \<Rightarrow> mstate list) \<Rightarrow> mstate \<Rightarrow> mstate list" where
  "further m st = concat (map (further m) (filter (progress st) (m st))) @ [st]"
  by pat_completeness auto
termination
  by (relation "measure (\<lambda>(m, st). length (fst st))") (auto simp: progress_def)

declare further.simps [simp del]

primrec repeat_n :: "nat \<Rightarrow> (mstate \<Rightarrow> mstate list) \<Rightarrow> mstate \<Rightarrow> mstate list" where
  "repeat_n 0 m st = [st]"
| "repeat_n (Suc n) m st = concat (map (repeat_n n m) (m st))"

definition capture :: "nat \<Rightarrow> mstate \<Rightarrow> mstate \<Rightarrow> mstate" where
  "capture k st st' =
     (fst st', (snd st')(k \<mapsto> take (length (fst st) - length (fst st')) (fst st)))"

primrec rmatch :: "regex \<Rightarrow> mstate \<Rightarrow> mstate list" where
  "rmatch (Chr c) = (\<lambda>st. case fst st of
                        [] \<Rightarrow> []
                      | x # xs \<Rightarrow> if x = c then [(xs, snd st)] else [])"
| "rmatch (Class cs) = (\<lambda>st. case fst st of
                           [] \<Rightarrow> []
                         | x # xs \<Rightarrow> if x \<in> set cs then [(xs, snd st)] else [])"
| "rmatch (Seq a b) = (\<lambda>st. concat (map (rmatch b) (rmatch a st)))"
| "rmatch (Opt r) = (\<lambda>st. filter (progress st) (rmatch r st) @ [st])"
| "rmatch (Plus r) = (\<lambda>st. concat (map (further (rmatch r)) (rmatch r st)))"
| "rmatch (Times n r) = repeat_n n (rmatch r)"
| "rmatch (Group k r) = (\<lambda>st. map (capture k st) (rmatch r st))"

text \<open>
  \<^verbatim>\<open>String.prototype.match\<close> with a pattern that has no global flag: the first position,
  from the left, at which the pattern matches; capture 0 is the matched text; \<^verbatim>\<open>null\<close>
  (\<open>None\<close>) when no position matches. A capture that took no part is \<^verbatim>\<open>undefined\<close>.
\<close>

fun match :: "regex \<Rightarrow> string \<Rightarrow> captures option" where
  "match r [] =
     (case rmatch r ([], Map.empty) of
        [] \<Rightarrow> None
      | st # _ \<Rightarrow> Some (snd (capture 0 ([], Map.empty) st)))"
| "match r (c # cs) =
     (case rmatch r (c # cs, Map.empty) of
        [] \<Rightarrow> match r cs
      | st # _ \<Rightarrow> Some (snd (capture 0 (c # cs, Map.empty) st)))"

definition capture_of :: "captures \<Rightarrow> nat \<Rightarrow> jsval" where
  "capture_of m k = (case m k of None \<Rightarrow> Undefined | Some s \<Rightarrow> Str s)"

section \<open>string.ts\<close>

subsection \<open>parseTimestamp (lines 73 to 85)\<close>

text \<open>\<^verbatim>\<open>/(-?)([0-9]{2}:)?([0-9]{2}):([0-9]{2})(\.[0-9]+)?/\<close>\<close>

definition digit :: regex where
  "digit = Class ''0123456789''"

definition TIMESTAMP_REGEXP :: regex where
  "TIMESTAMP_REGEXP =
     Seq (Group 1 (Opt (Chr CHR ''-'')))
    (Seq (Opt (Group 2 (Seq (Times 2 digit) (Chr CHR '':''))))
    (Seq (Group 3 (Times 2 digit))
    (Seq (Chr CHR '':'')
    (Seq (Group 4 (Times 2 digit))
         (Opt (Group 5 (Seq (Chr CHR ''.'') (Plus digit))))))))"

text \<open>\<^verbatim>\<open>s.slice(0, -1)\<close> of a text, and of \<^verbatim>\<open>undefined\<close> where the source never calls it.\<close>

fun slice_0_m1 :: "jsval \<Rightarrow> jsval" where
  "slice_0_m1 (Str s) = Str (butlast s)"
| "slice_0_m1 v = v"

definition parseTimestamp :: "string \<Rightarrow> number option" where
  "parseTimestamp value =
     (case match TIMESTAMP_REGEXP value of
        None \<Rightarrow> None
      | Some m \<Rightarrow>
          let minus = capture_of m 1; HH = capture_of m 2; MM = capture_of m 3;
              SS = capture_of m 4; ms = capture_of m 5;
              sign = (if minus = Str ''-'' then Fin (- 1) else Fin 1);
              hours = (if ToBoolean HH then mul (ToNumber (slice_0_m1 HH)) (Fin 3600000)
                       else Fin 0);
              decimal = (if ToBoolean ms then mul (ToNumber ms) (Fin 1000) else Fin 0)
          in Some (mul sign
                    (add (add (add hours (mul (ToNumber MM) (Fin 60000)))
                              (mul (ToNumber SS) (Fin 1000)))
                         decimal)))"

subsection \<open>The timestamp grammar in the specification's words\<close>

text \<open>
  \<^verbatim>\<open>[-][HH:]MM:SS[.fraction]\<close>: an optional minus sign, an optional two-digit hour
  followed by a colon, two digits of minutes, a colon, two digits of seconds, and an
  optional fraction made of a dot and at least one digit.
\<close>

definition two_digits :: "string \<Rightarrow> bool" where
  "two_digits s = (length s = 2 \<and> list_all is_digit s)"

definition timestamp_shaped :: "string \<Rightarrow> bool" where
  "timestamp_shaped s =
     (\<exists>sg hh mm ss fr.
        s = sg @ hh @ mm @ '':'' @ ss @ fr
        \<and> (sg = [] \<or> sg = ''-'')
        \<and> (hh = [] \<or> (\<exists>h. hh = h @ '':'' \<and> two_digits h))
        \<and> two_digits mm \<and> two_digits ss
        \<and> (fr = [] \<or> (\<exists>ds. fr = CHR ''.'' # ds \<and> ds \<noteq> [] \<and> list_all is_digit ds)))"

text \<open>A text matches the grammar somewhere when one of its segments is timestamp-shaped.\<close>

definition contains_timestamp :: "string \<Rightarrow> bool" where
  "contains_timestamp s = (\<exists>pre mid post. s = pre @ mid @ post \<and> timestamp_shaped mid)"

subsection \<open>The texts a pattern denotes\<close>

text \<open>The usual meaning of a pattern as a set of texts; captures play no part in it.\<close>

primrec lang :: "regex \<Rightarrow> string set" where
  "lang (Chr c) = {[c]}"
| "lang (Class cs) = {[c] |c. c \<in> set cs}"
| "lang (Seq a b) = {p @ q |p q. p \<in> lang a \<and> q \<in> lang b}"
| "lang (Opt r) = insert [] (lang r)"
| "lang (Plus r) = {concat ps |ps. ps \<noteq> [] \<and> set ps \<subseteq> lang r}"
| "lang (Times n r) = {concat ps |ps. length ps = n \<and> set ps \<subseteq> lang r}"
| "lang (Group k r) = lang r"

subsection \<open>stringifyValue (lines 69 to 71)\<close>

text \<open>
  The values handed to the stringifying functions are the primitive values and \<^verbatim>\<open>Date\<close>
  objects. A \<^verbatim>\<open>Date\<close> holds a time value, a whole number of milliseconds since the
  epoch, or none when it is an invalid date; \<^verbatim>\<open>toISOString\<close> raises a \<^verbatim>\<open>RangeError\<close> for
  an invalid date.
\<close>

datatype error = RangeError | TypeError

datatype "value" = Prim jsval | Date "int option"

definition pad :: "nat \<Rightarrow> int \<Rightarrow> string" where
  "pad w n = (let ds = dec_digits n in replicate (w - length ds) CHR ''0'' @ ds)"

text \<open>The civil date of a day number counted from 1970-01-01 (proleptic Gregorian).\<close>

definition civil_from_days :: "int \<Rightarrow> int \<times> int \<times> int" where
  "civil_from_days days =
     (let z = days + 719468;
          era = z div 146097;
          doe = z - era * 146097;
          yoe = (doe - doe div 1460 + doe div 36524 - doe div 146096) div 365;
          doy = doe - (365 * yoe + yoe div 4 - yoe div 100);
          mp = (5 * doy + 2) div 153;
          d = doy - (153 * mp + 2) div 5 + 1;
          m = (if mp < 10 then mp + 3 else mp - 9);
          y = yoe + era * 400 + (if m \<le> 2 then 1 else 0)
      in (y, m, d))"

definition toISOString :: "int option \<Rightarrow> error + string" where
  "toISOString tv =
     (case tv of
        None \<Rightarrow> Inl RangeError
      | Some t \<Rightarrow>
          let (y, m, d) = civil_from_days (t div 86400000);
              ms = t mod 86400000;
              year = (if 0 \<le> y \<and> y \<le> 9999 then pad 4 y
                      else (if y < 0 then CHR ''-'' else CHR ''+'') # pad 6 \<bar>y\<bar>)
          in Inr (year @ ''-'' @ pad 2 m @ ''-'' @ pad 2 d @ ''T''
                  @ pad 2 (ms div 3600000) @ '':'' @ pad 2 (ms div 60000 mod 60) @ '':''
                  @ pad 2 (ms div 1000 mod 60) @ ''.'' @ pad 3 (ms mod 1000) @ ''Z''))"

fun stringifyValue :: "value \<Rightarrow> error + string" where
  "stringifyValue (Date tv) = toISOString tv"
| "stringifyValue (Prim v) = Inr (ToString v)"

subsection \<open>The colon-separated lists (lines 41 to 61)\<close>

text \<open>
  Modelled from the spec: \<^verbatim>\<open>isNullish\<close> is imported from \<^verbatim>\<open>./utils\<close>, which is not among
  the sources; the documentation of its callers gives its meaning: nullish values are
  \<^verbatim>\<open>null\<close> and \<^verbatim>\<open>undefined\<close>.
\<close>

fun isNullish :: "value \<Rightarrow> bool" where
  "isNullish (Prim Undefined) = True"
| "isNullish (Prim Null) = True"
| "isNullish _ = False"

text \<open>\<^verbatim>\<open>Array.prototype.join\<close> on a list of texts.\<close>

fun join :: "string \<Rightarrow> string list \<Rightarrow> string" where
  "join sep [] = []"
| "join sep [x] = x"
| "join sep (x # y # ys) = x @ sep @ join sep (y # ys)"

text \<open>
  \<^verbatim>\<open>Array.prototype.map\<close> with a callback that may raise: the elements are visited in
  order and the first error ends the call.
\<close>

fun map_raising :: "('a \<Rightarrow> error + 'b) \<Rightarrow> 'a list \<Rightarrow> error + 'b list" where
  "map_raising f [] = Inr []"
| "map_raising f (x # xs) =
     (case f x of
        Inl e \<Rightarrow> Inl e
      | Inr y \<Rightarrow> (case map_raising f xs of Inl e \<Rightarrow> Inl e | Inr ys \<Rightarrow> Inr (y # ys)))"

definition stringifyArrayColonSeparated :: "value list \<Rightarrow> error + string" where
  "stringifyArrayColonSeparated array =
     (case map_raising
             (\<lambda>value. case stringifyValue value of
                         Inl e \<Rightarrow> Inl e
                       | Inr s \<Rightarrow> Inr (escapeFilterValue s))
             (filter (\<lambda>value. \<not> isNullish value) array) of
        Inl e \<Rightarrow> Inl e
      | Inr parts \<Rightarrow> Inr (join '':'' parts))"


subsection \<open>stringifyFilterDescription (lines 23 to 32)\<close>




section \<open>types.ts\<close>

text \<open>
  A record of the probe report is a JSON object; reading a property that the object
  does not have yields \<^verbatim>\<open>undefined\<close>. The properties read here hold primitive values.
  The tag mapping of each entity is text only and the private back-reference to the
  input is no field of the result; neither takes part in the numeric fields and both are
  left out.
\<close>

type_synonym object = "string \<rightharpoonup> jsval"

definition get :: "object \<Rightarrow> string \<Rightarrow> jsval" where
  "get info k = (case info k of None \<Rightarrow> Undefined | Some v \<Rightarrow> v)"

subsection \<open>The helper functions (lines 29 to 45)\<close>

text \<open>
  The function \<^verbatim>\<open>codecTag\<close> (the field of that name follows below); it returns \<^verbatim>\<open>null\<close> or
  a text.
\<close>

definition codecTag' :: "jsval \<Rightarrow> jsval" where
  "codecTag' o' = (let s = ToString o'
                  in if \<not> ToBoolean o' \<or> s = ''[0][0][0][0]'' then Null else Str s)"

text \<open>\<^verbatim>\<open>String.prototype.split\<close> with a one-character separator.\<close>

fun split :: "char \<Rightarrow> string \<Rightarrow> string list" where
  "split sep [] = [[]]"
| "split sep (c # cs) =
     (if c = sep then [] # split sep cs
      else case split sep cs of [] \<Rightarrow> [[c]] | p # ps \<Rightarrow> (c # p) # ps)"

text \<open>An element of an array of texts; \<^verbatim>\<open>undefined\<close> past its end.\<close>

definition element :: "string list \<Rightarrow> nat \<Rightarrow> jsval" where
  "element xs i = (if i < length xs then Str (xs ! i) else Undefined)"

text \<open>\<^verbatim>\<open>x !== y\<close> on numbers: not-a-number differs from everything, the two zeros are equal.\<close>

definition strict_neq :: "number \<Rightarrow> number \<Rightarrow> bool" where
  "strict_neq x y = (x = NaN \<or> y = NaN \<or> (x \<noteq> y \<and> \<not> (is_zero x \<and> is_zero y)))"

definition f64 :: "jsval \<Rightarrow> number" where
  "f64 fraction =
     (let parts = split CHR ''/'' (ToString fraction);
          x = element parts 0; y = element parts 1
      in if \<not> ToBoolean x \<or> \<not> ToBoolean y then Fin (- 1)
         else let a = ToNumber x; b = ToNumber y
              in if strict_neq a a \<or> strict_neq b b then Fin (- 1)
                 else divide_num a b)"

text \<open>The function \<^verbatim>\<open>int\<close> of the source.\<close>

definition int' :: "jsval \<Rightarrow> number" where
  "int' x = floor_num (ToNumber x)"

text \<open>\<^verbatim>\<open>String.prototype.toLowerCase\<close> on characters with a code below 256.\<close>

definition lower_char :: "char \<Rightarrow> char" where
  "lower_char c =
     (let n = (of_char c :: nat)
      in if (65 \<le> n \<and> n \<le> 90) \<or> (192 \<le> n \<and> n \<le> 222 \<and> n \<noteq> 215)
         then char_of (n + 32) else c)"

definition toLowerCase :: "string \<Rightarrow> string" where
  "toLowerCase s = map lower_char s"

subsection \<open>The stream classes (lines 58 to 164)\<close>

record BaseStream =
  index :: number
  codecName :: string
  codecTag :: "string option"
  start :: number
  duration :: number
  bitrate :: number

record VideoStream = BaseStream +
  codec :: string
  profile :: "string option"
  width :: number
  height :: number
  codedWidth :: number
  codedHeight :: number
  aspectRatio :: string
  pixelFormat :: string
  level :: number
  colorRange :: string
  colorSpace :: string
  colorTransfer :: string
  colorPrimaries :: string
  chromaLocation :: string
  fieldOrder :: string
  frameRate :: number
  avgFrameRate :: number
  bitsPerRawSample :: number

record AudioStream = BaseStream +
  codec :: string
  profile :: "string option"
  sampleFormat :: string
  sampleRate :: number
  channels :: number
  channelLayout :: string
  bitsPerSample :: number

record SubtitleStream = BaseStream +
  codec :: string

record DataStream = BaseStream +
  codec :: string

text \<open>
  The constructors. \<^verbatim>\<open>'' + x\<close> is the text of \<open>x\<close>; \<^verbatim>\<open>+x\<close> is its number; a field
  assigned under a condition is absent (\<open>None\<close>) when the condition fails.
\<close>

definition new_BaseStream :: "object \<Rightarrow> BaseStream" where
  "new_BaseStream info =
     (let tag = codecTag' (get info ''codec_tag_string'')
      in \<lparr> index = ushr (ToNumber (get info ''index'')) (Fin 0),
           codecName = ToString (get info ''codec_long_name''),
           codecTag = (if ToBoolean tag then Some (ToString tag) else None),
           start = bit_or (mul (ToNumber (get info ''start_time'')) (Fin 1000)) (Fin 0),
           duration = bit_or (mul (ToNumber (get info ''duration'')) (Fin 1000)) (Fin 0),
           bitrate = int' (get info ''bit_rate'') \<rparr>)"

definition new_profile :: "object \<Rightarrow> string option" where
  "new_profile info =
     (if ToBoolean (get info ''profile'')
      then Some (toLowerCase (ToString (get info ''profile''))) else None)"

definition new_VideoStream :: "object \<Rightarrow> VideoStream" where
  "new_VideoStream info =
     BaseStream.extend (new_BaseStream info)
       \<lparr> VideoStream.codec = ToString (get info ''codec_name''),
         VideoStream.profile = new_profile info,
         width = int' (get info ''width''),
         height = int' (get info ''height''),
         codedWidth = int' (get info ''coded_width''),
         codedHeight = int' (get info ''coded_height''),
         aspectRatio = ToString (get info ''display_aspect_ratio''),
         pixelFormat = ToString (get info ''pixel_format''),
         level = ushr (ToNumber (get info ''level'')) (Fin 0),
         colorRange = ToString (get info ''color_range''),
         colorSpace = ToString (get info ''color_space''),
         colorTransfer = ToString (get info ''color_transfer''),
         colorPrimaries = ToString (get info ''color_primaries''),
         chromaLocation = ToString (get info ''chroma_location''),
         fieldOrder = ToString (get info ''field_order''),
         frameRate = f64 (get info ''frame_rate''),
         avgFrameRate = f64 (get info ''avg_frame_rate''),
         bitsPerRawSample = ushr (ToNumber (get info ''bits_per_raw_sample'')) (Fin 0) \<rparr>"

definition new_AudioStream :: "object \<Rightarrow> AudioStream" where
  "new_AudioStream info =
     BaseStream.extend (new_BaseStream info)
       \<lparr> AudioStream.codec = ToString (get info ''codec_name''),
         AudioStream.profile = new_profile info,
         sampleFormat = ToString (get info ''sample_fmt''),
         sampleRate = ushr (ToNumber (get info ''sample_rate'')) (Fin 0),
         channels = ushr (ToNumber (get info ''channels'')) (Fin 0),
         channelLayout = ToString (get info ''channel_layout''),
         bitsPerSample = ushr (ToNumber (get info ''bits_per_sample'')) (Fin 0) \<rparr>"

definition new_SubtitleStream :: "object \<Rightarrow> SubtitleStream" where
  "new_SubtitleStream info =
     BaseStream.extend (new_BaseStream info)
       \<lparr> SubtitleStream.codec = ToString (get info ''codec_name'') \<rparr>"

definition new_DataStream :: "object \<Rightarrow> DataStream" where
  "new_DataStream info =
     BaseStream.extend (new_BaseStream info)
       \<lparr> DataStream.codec = ToString (get info ''codec_name'') \<rparr>"

text \<open>
  The union type \<^verbatim>\<open>Stream\<close>; the constructor stands for the class and for its constant
  \<^verbatim>\<open>type\<close> field.
\<close>

datatype Stream =
    Video VideoStream
  | Audio AudioStream
  | Subtitle SubtitleStream
  | Data DataStream

fun type_of :: "Stream \<Rightarrow> string" where
  "type_of (Video s) = ''video''"
| "type_of (Audio s) = ''audio''"
| "type_of (Subtitle s) = ''subtitle''"
| "type_of (Data s) = ''data''"

text \<open>The fields of the base class, whichever class the stream has.\<close>

fun base :: "Stream \<Rightarrow> BaseStream" where
  "base (Video s) = BaseStream.truncate s"
| "base (Audio s) = BaseStream.truncate s"
| "base (Subtitle s) = BaseStream.truncate s"
| "base (Data s) = BaseStream.truncate s"

definition toStream :: "object \<Rightarrow> Stream" where
  "toStream streamInfo =
     (let type = ToString (get streamInfo ''codec_type'')
      in if type = ''video'' then Video (new_VideoStream streamInfo)
         else if type = ''audio'' then Audio (new_AudioStream streamInfo)
         else if type = ''subtitle'' then Subtitle (new_SubtitleStream streamInfo)
         else Data (new_DataStream streamInfo))"

subsection \<open>Chapter and ProbeResult (lines 168 to 213)\<close>

record Chapter =
  id :: number
  start :: number
  "end" :: number

definition new_Chapter :: "object \<Rightarrow> Chapter" where
  "new_Chapter info =
     \<lparr> id = ushr (ToNumber (get info ''id'')) (Fin 0),
       Chapter.start = bit_or (mul (ToNumber (get info ''start'')) (Fin 1000000)) (Fin 0),
       end = bit_or (mul (ToNumber (get info ''end'')) (Fin 1000000)) (Fin 0) \<rparr>"

text \<open>
  The input of \<^verbatim>\<open>ProbeResult\<close> has the shape of the probe report: a \<^verbatim>\<open>format\<close> object,
  an array \<^verbatim>\<open>streams\<close> and an array \<^verbatim>\<open>chapters\<close> of objects.
\<close>

record probe_info =
  info_format :: object
  info_streams :: "object list"
  info_chapters :: "object list"

record ProbeResult =
  format :: string
  streams :: "Stream list"
  chapters :: "Chapter list"
  bitrate :: number
  duration :: number
  start :: number
  score :: number

definition new_ProbeResult :: "probe_info \<Rightarrow> ProbeResult" where
  "new_ProbeResult info =
     (let formatInfo = info_format info
      in \<lparr> format = ToString (get formatInfo ''format_name''),
           streams = map toStream (info_streams info),
           chapters = map new_Chapter (info_chapters info),
           ProbeResult.bitrate = int' (get formatInfo ''bit_rate''),
           ProbeResult.duration =
             bit_or (mul (ToNumber (get formatInfo ''duration'')) (Fin 1000)) (Fin 0),
           ProbeResult.start =
             bit_or (mul (ToNumber (get formatInfo ''start_time'')) (Fin 1000)) (Fin 0),
           score = bit_or (ToNumber (get formatInfo ''probe_score'')) (Fin 0) \<rparr>)"

text \<open>
  The constructor on an input record of any shape: the entry \<^verbatim>\<open>format\<close> and each element
  of the arrays is an object or is absent (\<^verbatim>\<open>undefined\<close> or \<^verbatim>\<open>null\<close>), and the arrays
  themselves may be absent. Reading a property of an absent format or of an absent
  element, and \<^verbatim>\<open>Array.prototype.map.call\<close> on an absent array, raise a \<^verbatim>\<open>TypeError\<close>; the
  format is read first, then the streams, then the chapters. On a record that has all of
  them the constructor is \<open>new_ProbeResult\<close>.
\<close>

record probe_input =
  input_format :: "object option"
  input_streams :: "object option list option"
  input_chapters :: "object option list option"

definition construct_ProbeResult :: "probe_input \<Rightarrow> error + ProbeResult" where
  "construct_ProbeResult input =
     (case input_format input of
        None \<Rightarrow> Inl TypeError
      | Some formatInfo \<Rightarrow>
          (case input_streams input of
             None \<Rightarrow> Inl TypeError
           | Some ss \<Rightarrow>
               (case those ss of
                  None \<Rightarrow> Inl TypeError
                | Some streamInfos \<Rightarrow>
                    (case input_chapters input of
                       None \<Rightarrow> Inl TypeError
                     | Some cs \<Rightarrow>
                         (case those cs of
                            None \<Rightarrow> Inl TypeError
                          | Some chapterInfos \<Rightarrow>
                              Inr (new_ProbeResult
                                     \<lparr> info_format = formatInfo,
                                       info_streams = streamInfos,
                                       info_chapters = chapterInfos \<rparr>))))))"

text \<open>An input record that has a format object and arrays of stream and chapter objects.\<close>

definition well_shaped :: "probe_input \<Rightarrow> bool" where
  "well_shaped input =
     (input_format input \<noteq> None
      \<and> (case input_streams input of None \<Rightarrow> False | Some ss \<Rightarrow> None \<notin> set ss)
      \<and> (case input_chapters input of None \<Rightarrow> False | Some cs \<Rightarrow> None \<notin> set cs))"

subsection \<open>The coercion rules in the specification's words\<close>

text \<open>
  A number forced to the unsigned 32-bit range: its integer part modulo \<open>2\<^sup>3\<^sup>2\<close>; a value
  that is no finite number gives 0.
\<close>

fun wrap_uint32 :: "number \<Rightarrow> number" where
  "wrap_uint32 (Fin q) = Fin (of_int (trunc q mod 2 ^ 32))"
| "wrap_uint32 _ = Fin 0"

text \<open>
  A number truncated to a signed 32-bit integer: its integer part modulo \<open>2\<^sup>3\<^sup>2\<close>, taken in
  the range from \<open>-2\<^sup>3\<^sup>1\<close> to \<open>2\<^sup>3\<^sup>1 - 1\<close>; a value that is no finite number gives 0.
\<close>

fun wrap_int32 :: "number \<Rightarrow> number" where
  "wrap_int32 (Fin q) = Fin (of_int ((trunc q + 2 ^ 31) mod 2 ^ 32 - 2 ^ 31))"
| "wrap_int32 _ = Fin 0"

text \<open>
  The numeric fields that the constructors coerce with \<^verbatim>\<open>| 0\<close> or \<^verbatim>\<open>>>> 0\<close>, per class,
  and whether all of them are finite.
\<close>

fun coerced_fields :: "Stream \<Rightarrow> number list" where
  "coerced_fields (Video s) =
     [index s, BaseStream.start s, BaseStream.duration s, level s, bitsPerRawSample s]"
| "coerced_fields (Audio s) =
     [index s, BaseStream.start s, BaseStream.duration s, sampleRate s, channels s,
      bitsPerSample s]"
| "coerced_fields (Subtitle s) = [index s, BaseStream.start s, BaseStream.duration s]"
| "coerced_fields (Data s) = [index s, BaseStream.start s, BaseStream.duration s]"

definition chapter_fields :: "Chapter \<Rightarrow> number list" where
  "chapter_fields c = [id c, Chapter.start c, end c]"

subsection \<open>Notions used to relate the matcher and the texts of a pattern\<close>

text \<open>The texts a list of matcher states leaves to be read.\<close>

definition rests :: "mstate list \<Rightarrow> string set" where
  "rests xs = fst ` set xs"

text \<open>
  A matcher implements a set of texts when, whatever the captures, it leaves exactly
  the rests of the text after a front segment in the set.
\<close>

definition matches_lang :: "(mstate \<Rightarrow> mstate list) \<Rightarrow> string set \<Rightarrow> bool" where
  "matches_lang m L = (\<forall>s c. rests (m (s, c)) = {rest. \<exists>p. p \<in> L \<and> s = p @ rest})"

section \<open>Properties of the escaping functions\<close>

lemma replace_class_spec:
  "replace_class cls prefixed s = escape_spec (set cls) s"
  by (induction s) (simp_all add: escape_spec_def prefixed_def)

lemma unescape_plain:
  "c \<noteq> backslash \<Longrightarrow> unescape (c # cs) = c # unescape cs"
  by (cases cs) simp_all

lemma unescape_escape_spec:
  "backslash \<in> S \<Longrightarrow> unescape (escape_spec S s) = s"
proof (induction s)
  case Nil
  then show ?case by (simp add: escape_spec_def)
next
  case (Cons c s)
  then have IH: "unescape (escape_spec S s) = s" by simp
  show ?case
  proof (cases "c \<in> S")
    case True
    then show ?thesis using IH by (simp add: escape_spec_def)
  next
    case False
    with Cons.prems have "c \<noteq> backslash" by auto
    then show ?thesis using False IH by (simp add: escape_spec_def unescape_plain)
  qed
qed

lemma length_escape_spec:
  "length (escape_spec S s) = length s + length (filter (\<lambda>c. c \<in> S) s)"
  by (induction s) (simp_all add: escape_spec_def)

text \<open>
  C5. Each of the four escaping functions prefixes exactly the characters of its own
  fixed set with a single backslash and leaves every other character unchanged; the
  empty text is mapped to the empty text; the functions are total, and reading the
  escapes back returns the input.
\<close>

theorem C5_escape_functions:
  "escapeFilterValue s = escape_spec {backslash, quote, CHR '':''} s
   \<and> escapeFilterDescription s
       = escape_spec {backslash, quote, CHR ''['', CHR '']'', CHR '','', CHR '';''} s
   \<and> escapeConcatFile s = escape_spec {backslash, quote, CHR '' ''} s
   \<and> escapeTeeComponent s
       = escape_spec {backslash, quote, CHR '' '', CHR ''|'', CHR ''['', CHR '']''} s
   \<and> escapeFilterValue [] = [] \<and> escapeFilterDescription [] = []
   \<and> escapeConcatFile [] = [] \<and> escapeTeeComponent [] = []
   \<and> unescape (escapeFilterValue s) = s \<and> unescape (escapeFilterDescription s) = s
   \<and> unescape (escapeConcatFile s) = s \<and> unescape (escapeTeeComponent s) = s"
  by (simp add: escapeFilterValue_def escapeFilterDescription_def escapeConcatFile_def
      escapeTeeComponent_def replace_class_spec unescape_escape_spec)

section \<open>Properties of the number coercions\<close>

lemma ushr_0: "ushr x (Fin 0) = wrap_uint32 x"
  by (cases x) (simp_all add: ushr_def trunc_def uint_word_of_int take_bit_eq_mod)

lemma sint32: "sint (word_of_int k :: 32 word) = (k + 2 ^ 31) mod 2 ^ 32 - 2 ^ 31"
  using int_word_sint [where 'a=32, of k] by simp

lemma bit_or_0: "bit_or x (Fin 0) = wrap_int32 x"
  by (cases x) (simp_all add: bit_or_def trunc_def sint32)

lemma wrap_uint32_range: "\<exists>k. wrap_uint32 x = Fin (of_int k) \<and> 0 \<le> k \<and> k < 2 ^ 32"
  by (cases x) auto

lemma wrap_int32_range: "\<exists>k. wrap_int32 x = Fin (of_int k) \<and> - (2 ^ 31) \<le> k \<and> k < 2 ^ 31"
proof (cases x)
  case (Fin q)
  let ?k = "(trunc q + 2 ^ 31) mod 2 ^ 32 - 2 ^ 31"
  have "0 \<le> (trunc q + 2 ^ 31) mod (2 ^ 32 :: int)" by simp
  moreover have "(trunc q + 2 ^ 31) mod (2 ^ 32 :: int) < 2 ^ 32" by simp
  ultimately have "- (2 ^ 31) \<le> ?k \<and> ?k < 2 ^ 31" by simp
  with Fin show ?thesis by (intro exI [of _ ?k]) simp
qed auto

lemma wrap_int32_finite: "is_finite (wrap_int32 x)"
  by (cases x) simp_all

lemma wrap_uint32_finite: "is_finite (wrap_uint32 x)"
  by (cases x) simp_all

lemma mul_NaN: "mul NaN y = NaN"
  by (simp add: mul_def)

lemma get_empty: "get Map.empty k = Undefined"
  by (simp add: get_def)

lemma int'_NaN: "ToNumber v = NaN \<Longrightarrow> int' v = NaN"
  by (simp add: int'_def)

lemma int'_finite_iff: "is_finite (int' v) = is_finite (ToNumber v)"
  by (cases "ToNumber v") (simp_all add: int'_def)

lemma strict_neq_self: "strict_neq a a = (a = NaN)"
  by (auto simp: strict_neq_def)

lemma split_undefined: "split CHR ''/'' ''undefined'' = [''undefined'']"
  by simp

lemma f64_Undefined: "f64 Undefined = Fin (- 1)"
  by (simp add: f64_def element_def)

lemma StringToNumber_0: "StringToNumber ''0'' = Fin 0"
  by (simp add: StringToNumber_def trim_def is_ws_def decimal_literal_def is_digit_def
      digits_value_def digit_value_def pow_int_def round64_def zero_of_def Let_def)

lemma StringToNumber_1: "StringToNumber ''1'' = Fin 1"
  by (simp add: StringToNumber_def trim_def is_ws_def decimal_literal_def is_digit_def
      digits_value_def digit_value_def pow_int_def round64_def zero_of_def Let_def
      ilog_def round_half_even_def)

lemma f64_0_0: "f64 (Str ''0/0'') = NaN"
  by (simp add: f64_def element_def StringToNumber_0 strict_neq_self divide_num_def)

lemma f64_1_0: "f64 (Str ''1/0'') = PosInf"
  by (simp add: f64_def element_def StringToNumber_0 StringToNumber_1 strict_neq_self
      divide_num_def inf_of_def)

lemma mul_example: "mul (Fin (4295 / 2)) (Fin 1000000) = Fin 2147500000"
  by (simp add: mul_def round64_def ilog_def round_half_even_def pow_int_def Let_def)

lemma wrap_example: "wrap_int32 (Fin 2147500000) = Fin (- 2147467296)"
  by (simp add: trunc_def)

section \<open>The fields the constructors compute\<close>

lemma base_toStream: "base (toStream info) = new_BaseStream info"
  by (simp add: toStream_def Let_def new_VideoStream_def new_AudioStream_def
      new_SubtitleStream_def new_DataStream_def BaseStream.defs)

lemma new_BaseStream_fields:
  "index (new_BaseStream info) = wrap_uint32 (ToNumber (get info ''index''))"
  "BaseStream.start (new_BaseStream info)
     = wrap_int32 (mul (ToNumber (get info ''start_time'')) (Fin 1000))"
  "BaseStream.duration (new_BaseStream info)
     = wrap_int32 (mul (ToNumber (get info ''duration'')) (Fin 1000))"
  "BaseStream.bitrate (new_BaseStream info) = int' (get info ''bit_rate'')"
  by (simp_all add: new_BaseStream_def Let_def ushr_0 bit_or_0)

lemma new_VideoStream_fields:
  "BaseStream.truncate (new_VideoStream info) = new_BaseStream info"
  "level (new_VideoStream info) = wrap_uint32 (ToNumber (get info ''level''))"
  "bitsPerRawSample (new_VideoStream info)
     = wrap_uint32 (ToNumber (get info ''bits_per_raw_sample''))"
  "frameRate (new_VideoStream info) = f64 (get info ''frame_rate'')"
  "avgFrameRate (new_VideoStream info) = f64 (get info ''avg_frame_rate'')"
  "width (new_VideoStream info) = int' (get info ''width'')"
  "height (new_VideoStream info) = int' (get info ''height'')"
  "codedWidth (new_VideoStream info) = int' (get info ''coded_width'')"
  "codedHeight (new_VideoStream info) = int' (get info ''coded_height'')"
  by (simp_all add: new_VideoStream_def BaseStream.defs ushr_0)

lemma new_AudioStream_fields:
  "BaseStream.truncate (new_AudioStream info) = new_BaseStream info"
  "sampleRate (new_AudioStream info) = wrap_uint32 (ToNumber (get info ''sample_rate''))"
  "channels (new_AudioStream info) = wrap_uint32 (ToNumber (get info ''channels''))"
  "bitsPerSample (new_AudioStream info)
     = wrap_uint32 (ToNumber (get info ''bits_per_sample''))"
  by (simp_all add: new_AudioStream_def BaseStream.defs ushr_0)

lemma new_Chapter_fields:
  "id (new_Chapter info) = wrap_uint32 (ToNumber (get info ''id''))"
  "Chapter.start (new_Chapter info)
     = wrap_int32 (mul (ToNumber (get info ''start'')) (Fin 1000000))"
  "end (new_Chapter info) = wrap_int32 (mul (ToNumber (get info ''end'')) (Fin 1000000))"
  by (simp_all add: new_Chapter_def ushr_0 bit_or_0)

lemma new_ProbeResult_fields:
  "ProbeResult.bitrate (new_ProbeResult info) = int' (get (info_format info) ''bit_rate'')"
  "ProbeResult.start (new_ProbeResult info)
     = wrap_int32 (mul (ToNumber (get (info_format info) ''start_time'')) (Fin 1000))"
  "ProbeResult.duration (new_ProbeResult info)
     = wrap_int32 (mul (ToNumber (get (info_format info) ''duration'')) (Fin 1000))"
  "score (new_ProbeResult info) = wrap_int32 (ToNumber (get (info_format info) ''probe_score''))"
  "streams (new_ProbeResult info) = map toStream (info_streams info)"
  "chapters (new_ProbeResult info) = map new_Chapter (info_chapters info)"
  by (simp_all add: new_ProbeResult_def Let_def bit_or_0)

lemma index_extend: "index (BaseStream.extend b e) = index b"
  by (simp add: BaseStream.defs)

lemma stream_index:
  "index (new_VideoStream info) = wrap_uint32 (ToNumber (get info ''index''))"
  "index (new_AudioStream info) = wrap_uint32 (ToNumber (get info ''index''))"
  "index (new_SubtitleStream info) = wrap_uint32 (ToNumber (get info ''index''))"
  "index (new_DataStream info) = wrap_uint32 (ToNumber (get info ''index''))"
  by (simp_all add: new_VideoStream_def new_AudioStream_def new_SubtitleStream_def
      new_DataStream_def index_extend new_BaseStream_fields)

lemma extend_fields:
  "index (BaseStream.extend b e) = index b"
  "BaseStream.start (BaseStream.extend b e) = BaseStream.start b"
  "BaseStream.duration (BaseStream.extend b e) = BaseStream.duration b"
  "BaseStream.bitrate (BaseStream.extend b e) = BaseStream.bitrate b"
  by (simp_all add: BaseStream.defs)

lemma truncate_fields:
  "index (BaseStream.truncate s) = index s"
  "BaseStream.start (BaseStream.truncate s) = BaseStream.start s"
  "BaseStream.duration (BaseStream.truncate s) = BaseStream.duration s"
  "BaseStream.bitrate (BaseStream.truncate s) = BaseStream.bitrate s"
  by (simp_all add: BaseStream.defs)

lemma stream_base_fields:
  "BaseStream.start (new_VideoStream info) = BaseStream.start (new_BaseStream info)"
  "BaseStream.duration (new_VideoStream info) = BaseStream.duration (new_BaseStream info)"
  "BaseStream.start (new_AudioStream info) = BaseStream.start (new_BaseStream info)"
  "BaseStream.duration (new_AudioStream info) = BaseStream.duration (new_BaseStream info)"
  "BaseStream.start (new_SubtitleStream info) = BaseStream.start (new_BaseStream info)"
  "BaseStream.duration (new_SubtitleStream info) = BaseStream.duration (new_BaseStream info)"
  "BaseStream.start (new_DataStream info) = BaseStream.start (new_BaseStream info)"
  "BaseStream.duration (new_DataStream info) = BaseStream.duration (new_BaseStream info)"
  by (simp_all add: new_VideoStream_def new_AudioStream_def new_SubtitleStream_def
      new_DataStream_def extend_fields)

lemma coerced_fields_finite: "list_all is_finite (coerced_fields (toStream info))"
  by (simp add: toStream_def Let_def stream_index stream_base_fields new_VideoStream_fields
      new_AudioStream_fields new_BaseStream_fields wrap_uint32_finite wrap_int32_finite)

lemma chapter_fields_finite: "list_all is_finite (chapter_fields (new_Chapter info))"
  by (simp add: chapter_fields_def new_Chapter_fields wrap_uint32_finite wrap_int32_finite)

lemma all_streams_finite:
  "list_all (\<lambda>s. list_all is_finite (coerced_fields s)) (map toStream xs)"
  by (induction xs) (simp_all add: coerced_fields_finite)

lemma all_chapters_finite:
  "list_all (\<lambda>c. list_all is_finite (chapter_fields c)) (map new_Chapter xs)"
  by (induction xs) (simp_all add: chapter_fields_finite)

lemma all_stream_bitrates:
  "list_all (\<lambda>i. is_finite (BaseStream.bitrate (base (toStream i)))
                     = is_finite (ToNumber (get i ''bit_rate''))) xs"
  by (induction xs) (simp_all add: base_toStream new_BaseStream_fields int'_finite_iff)

text \<open>
  C8. Every non-negative-integer field (stream index, sample rate, channels, bits per
  sample, bits per raw sample, level, chapter id) is its source coerced to a number and
  reduced to the unsigned 32-bit range: the integer part modulo \<open>2\<^sup>3\<^sup>2\<close>, so that a negative
  or too large source wraps around, and a source that is no number gives 0.
\<close>

theorem C8_unsigned_fields:
  "index (base (toStream info)) = wrap_uint32 (ToNumber (get info ''index''))
   \<and> sampleRate (new_AudioStream info) = wrap_uint32 (ToNumber (get info ''sample_rate''))
   \<and> channels (new_AudioStream info) = wrap_uint32 (ToNumber (get info ''channels''))
   \<and> bitsPerSample (new_AudioStream info)
       = wrap_uint32 (ToNumber (get info ''bits_per_sample''))
   \<and> bitsPerRawSample (new_VideoStream info)
       = wrap_uint32 (ToNumber (get info ''bits_per_raw_sample''))
   \<and> level (new_VideoStream info) = wrap_uint32 (ToNumber (get info ''level''))
   \<and> id (new_Chapter info) = wrap_uint32 (ToNumber (get info ''id''))
   \<and> (\<exists>k. wrap_uint32 x = Fin (of_int k) \<and> 0 \<le> k \<and> k < 2 ^ 32)
   \<and> wrap_uint32 (Fin (of_int n)) = Fin (of_int (n mod 2 ^ 32))
   \<and> wrap_uint32 (ToNumber (Num (Fin (- 1)))) = Fin 4294967295
   \<and> wrap_uint32 (ToNumber (Num (Fin 4294967301))) = Fin 5
   \<and> wrap_uint32 (ToNumber Undefined) = Fin 0
   \<and> wrap_uint32 NaN = Fin 0"
  using wrap_uint32_range [of x]
  by (simp add: base_toStream new_BaseStream_fields new_AudioStream_fields
      new_VideoStream_fields new_Chapter_fields trunc_def)

lemma wrap_int32_cong: "wrap_int32 (Fin q) = Fin (of_int k) \<Longrightarrow> (k - trunc q) mod 2 ^ 32 = 0"
proof -
  assume "wrap_int32 (Fin q) = Fin (of_int k)"
  then have "k = (trunc q + 2 ^ 31) mod 2 ^ 32 - 2 ^ 31" by simp
  then have "k - trunc q = (trunc q + 2 ^ 31) mod 2 ^ 32 - (trunc q + 2 ^ 31)" by simp
  also have "\<dots> = - (2 ^ 32 * ((trunc q + 2 ^ 31) div 2 ^ 32))"
    by (simp add: minus_div_mult_eq_mod [symmetric])
  finally show ?thesis by simp
qed

lemma wrap_int32_less: "\<exists>k. wrap_int32 x = Fin (of_int k) \<and> (of_int k :: rat) < 2147483648"
proof -
  obtain k where k: "wrap_int32 x = Fin (of_int k)" "k < 2 ^ 31"
    using wrap_int32_range [of x] by blast
  have "(of_int k :: rat) < of_int (2 ^ 31)" using k(2) by (simp only: of_int_less_iff)
  then show ?thesis using k(1) by auto
qed

text \<open>
  C10. A chapter's start and end are the source times 1000000, truncated to a signed
  32-bit integer: the stored value lies in the signed 32-bit range and is congruent to
  the integer part of the product modulo \<open>2\<^sup>3\<^sup>2\<close>; from a source of 2147.483648 seconds on
  it is below the true microsecond count, and it can be negative; a source that is no
  number gives 0.
\<close>

theorem C10_chapter_times:
  "Chapter.start (new_Chapter info)
     = wrap_int32 (mul (ToNumber (get info ''start'')) (Fin 1000000))
   \<and> end (new_Chapter info) = wrap_int32 (mul (ToNumber (get info ''end'')) (Fin 1000000))
   \<and> (\<exists>k. wrap_int32 x = Fin (of_int k) \<and> - (2 ^ 31) \<le> k \<and> k < 2 ^ 31)
   \<and> (wrap_int32 (Fin q) = Fin (of_int k) \<longrightarrow> (k - trunc q) mod 2 ^ 32 = 0)
   \<and> (ToNumber (get info ''start'') = Fin s \<and> 2147483648 \<le> s * 1000000 \<longrightarrow>
        (\<exists>k. Chapter.start (new_Chapter info) = Fin (of_int k) \<and> of_int k < s * 1000000))
   \<and> (ToNumber (get info ''end'') = Fin s \<and> 2147483648 \<le> s * 1000000 \<longrightarrow>
        (\<exists>k. end (new_Chapter info) = Fin (of_int k) \<and> of_int k < s * 1000000))
   \<and> (ToNumber (get info ''start'') = NaN \<longrightarrow> Chapter.start (new_Chapter info) = Fin 0)
   \<and> (ToNumber (get info ''end'') = NaN \<longrightarrow> end (new_Chapter info) = Fin 0)"
proof -
  have a: "\<exists>k. wrap_int32 x = Fin (of_int k) \<and> - (2 ^ 31) \<le> k \<and> k < 2 ^ 31"
    by (rule wrap_int32_range)
  have b: "wrap_int32 (Fin q) = Fin (of_int k) \<longrightarrow> (k - trunc q) mod 2 ^ 32 = 0"
    using wrap_int32_cong by blast
  have c: "2147483648 \<le> s * 1000000 \<longrightarrow>
        (\<exists>k. wrap_int32 y = Fin (of_int k) \<and> of_int k < s * 1000000)" for y
    using wrap_int32_less [of y] by force
  show ?thesis
    using a b c by (simp add: new_Chapter_fields mul_NaN)
qed

text \<open>
  The source 2147.5 seconds: the product is 2147500000, which wraps to a negative value;
  the absent end is 0.
\<close>

theorem C10_chapter_times_witness:
  "ToNumber (get [''start'' \<mapsto> Num (Fin (4295 / 2))] ''start'') = Fin (4295 / 2)
   \<and> (2147483648 :: rat) \<le> 4295 / 2 * 1000000
   \<and> ToNumber (get [''start'' \<mapsto> Num (Fin (4295 / 2))] ''end'') = NaN
   \<and> Chapter.start (new_Chapter [''start'' \<mapsto> Num (Fin (4295 / 2))]) = Fin (- 2147467296)
   \<and> end (new_Chapter [''start'' \<mapsto> Num (Fin (4295 / 2))]) = Fin 0"
  using C10_chapter_times [of "[''start'' \<mapsto> Num (Fin (4295 / 2))]" NaN 2147500000
      "- 2147467296" "4295 / 2"]
  by (simp add: get_def mul_example mul_NaN trunc_def)

section \<open>Generic integer fields\<close>

text \<open>
  The claim C2 as stated: a record whose \<^verbatim>\<open>bit_rate\<close> is absent maps to the bitrate 0.
  It fails at the empty record, for a stream as for a format: \<^verbatim>\<open>Math.floor\<close> of
  not-a-number is not-a-number.
\<close>

theorem C2_counterexample:
  "get Map.empty ''bit_rate'' = Undefined
   \<and> BaseStream.bitrate (new_BaseStream Map.empty) = NaN
   \<and> BaseStream.bitrate (new_BaseStream Map.empty) \<noteq> Fin 0
   \<and> ProbeResult.bitrate
        (new_ProbeResult \<lparr>info_format = Map.empty, info_streams = [], info_chapters = []\<rparr>)
       \<noteq> Fin 0"
  by (simp add: new_BaseStream_fields new_ProbeResult_fields get_def int'_def)

text \<open>
  C2, amended. For every stream or format record whose \<^verbatim>\<open>bit_rate\<close> is absent or not
  numeric, the mapped bitrate is not-a-number, and so are the width, the height and the
  coded sizes for such sources (the fields computed by \<^verbatim>\<open>int\<close>); the level and the bits
  per raw sample, which are coerced with \<^verbatim>\<open>>>> 0\<close>, are 0 there. The functions are total:
  no field raises an error.
\<close>

theorem C2_amended:
  "(ToNumber (get info ''bit_rate'') = NaN \<longrightarrow>
      BaseStream.bitrate (base (toStream info)) = NaN
      \<and> ProbeResult.bitrate
           (new_ProbeResult \<lparr>info_format = info, info_streams = ss, info_chapters = cs\<rparr>) = NaN)
   \<and> (ToNumber (get info ''width'') = NaN \<longrightarrow> width (new_VideoStream info) = NaN)
   \<and> (ToNumber (get info ''height'') = NaN \<longrightarrow> height (new_VideoStream info) = NaN)
   \<and> (ToNumber (get info ''coded_width'') = NaN \<longrightarrow> codedWidth (new_VideoStream info) = NaN)
   \<and> (ToNumber (get info ''coded_height'') = NaN \<longrightarrow> codedHeight (new_VideoStream info) = NaN)
   \<and> (ToNumber (get info ''level'') = NaN \<longrightarrow> level (new_VideoStream info) = Fin 0)
   \<and> (ToNumber (get info ''bits_per_raw_sample'') = NaN \<longrightarrow>
        bitsPerRawSample (new_VideoStream info) = Fin 0)"
  by (simp add: base_toStream new_BaseStream_fields new_ProbeResult_fields
      new_VideoStream_fields int'_NaN)

text \<open>A record whose bitrate is the text \<^verbatim>\<open>N/A\<close> and whose level is absent.\<close>

theorem C2_amended_witness:
  "ToNumber (get [''bit_rate'' \<mapsto> Str ''N/A''] ''bit_rate'') = NaN
   \<and> ToNumber (get [''bit_rate'' \<mapsto> Str ''N/A''] ''level'') = NaN
   \<and> BaseStream.bitrate (base (toStream [''bit_rate'' \<mapsto> Str ''N/A''])) = NaN
   \<and> level (new_VideoStream [''bit_rate'' \<mapsto> Str ''N/A'']) = Fin 0"
proof -
  have n: "StringToNumber ''N/A'' = NaN"
    by (simp add: StringToNumber_def trim_def is_ws_def decimal_literal_def is_digit_def)
  show ?thesis
    using C2_amended [of "[''bit_rate'' \<mapsto> Str ''N/A'']" "[]" "[]"]
    by (simp add: get_def n)
qed

section \<open>Fraction fields\<close>

lemma f64_cases:
  "f64 v =
     (let parts = split CHR ''/'' (ToString v); x = element parts 0; y = element parts 1
      in if \<not> ToBoolean x \<or> \<not> ToBoolean y \<or> ToNumber x = NaN \<or> ToNumber y = NaN
         then Fin (- 1) else divide_num (ToNumber x) (ToNumber y))"
  by (simp add: f64_def Let_def strict_neq_self)

lemma divide_by_zero:
  "a \<noteq> NaN \<Longrightarrow> is_zero b \<Longrightarrow>
     divide_num a b = (if is_zero a then NaN else inf_of (negative a \<noteq> negative b))"
  by (cases a; cases b) (simp_all add: divide_num_def)

text \<open>
  The claim C6 as stated: with both parts present and numeric, a denominator of 0 gives a
  signed infinity. It fails at the text \<^verbatim>\<open>0/0\<close>, whose quotient is not-a-number.
\<close>

theorem C6_counterexample:
  "ToString (Str ''0/0'') = ''0/0''
   \<and> split CHR ''/'' ''0/0'' = [''0'', ''0'']
   \<and> ToNumber (Str ''0'') = Fin 0
   \<and> f64 (Str ''0/0'') = NaN
   \<and> f64 (Str ''0/0'') \<noteq> PosInf \<and> f64 (Str ''0/0'') \<noteq> NegInf
   \<and> avgFrameRate (new_VideoStream [''avg_frame_rate'' \<mapsto> Str ''0/0'']) = NaN"
  by (simp add: f64_0_0 StringToNumber_0 new_VideoStream_fields get_def)

text \<open>
  C6, amended. A frame rate is computed from the text of its source, split at \<^verbatim>\<open>/\<close>: when
  the first or the second part is missing or empty, or parses to not-a-number, the field
  is -1; otherwise it is the floating-point quotient of the two numbers, which is a
  signed infinity when the denominator is a zero and the numerator is not, and
  not-a-number when both are zeros.
\<close>

theorem C6_amended:
  "frameRate (new_VideoStream info) = f64 (get info ''frame_rate'')
   \<and> avgFrameRate (new_VideoStream info) = f64 (get info ''avg_frame_rate'')
   \<and> (\<not> ToBoolean (element (split CHR ''/'' (ToString v)) 0)
        \<or> \<not> ToBoolean (element (split CHR ''/'' (ToString v)) 1)
        \<or> ToNumber (element (split CHR ''/'' (ToString v)) 0) = NaN
        \<or> ToNumber (element (split CHR ''/'' (ToString v)) 1) = NaN
       \<longrightarrow> f64 v = Fin (- 1))
   \<and> (ToBoolean (element (split CHR ''/'' (ToString v)) 0)
        \<and> ToBoolean (element (split CHR ''/'' (ToString v)) 1)
        \<and> ToNumber (element (split CHR ''/'' (ToString v)) 0) \<noteq> NaN
        \<and> ToNumber (element (split CHR ''/'' (ToString v)) 1) \<noteq> NaN
       \<longrightarrow> f64 v = divide_num (ToNumber (element (split CHR ''/'' (ToString v)) 0))
                                (ToNumber (element (split CHR ''/'' (ToString v)) 1)))
   \<and> (a \<noteq> NaN \<and> \<not> is_zero a \<and> is_zero b
       \<longrightarrow> divide_num a b = inf_of (negative a \<noteq> negative b))
   \<and> (is_zero a \<and> is_zero b \<longrightarrow> divide_num a b = NaN)"
proof -
  have z: "is_zero a \<and> is_zero b \<longrightarrow> divide_num a b = NaN"
    by (cases a; cases b) (simp_all add: divide_num_def)
  show ?thesis
    using z by (simp add: new_VideoStream_fields f64_cases Let_def divide_by_zero)
qed

text \<open>The texts \<^verbatim>\<open>1/0\<close>, \<^verbatim>\<open>0/0\<close> and \<^verbatim>\<open>30\<close>, and the quotient of 1 and the negative zero.\<close>

theorem C6_amended_witness:
  "f64 (Str ''1/0'') = PosInf
   \<and> f64 (Str ''0/0'') = NaN
   \<and> f64 (Str ''30'') = Fin (- 1)
   \<and> divide_num (Fin 1) NegZero = NegInf"
proof -
  have "split CHR ''/'' ''30'' = [''30'']" by simp
  then have a: "f64 (Str ''30'') = Fin (- 1)"
    using C6_amended [of Map.empty "Str ''30''" "Fin 1" NegZero]
    by (simp add: element_def)
  have b: "divide_num (Fin 1) NegZero = NegInf"
    using C6_amended [of Map.empty "Str ''30''" "Fin 1" NegZero]
    by (simp add: inf_of_def)
  show ?thesis using a b by (simp add: f64_1_0 f64_0_0)
qed

section \<open>Finiteness of the numeric fields\<close>

lemma those_None_iff: "those xs = None \<longleftrightarrow> None \<in> set xs"
  by (induction xs) (auto split: option.splits)

lemma those_map_Some: "those (map Some xs) = Some xs"
  by (induction xs) simp_all

lemma those_Some_map: "those xs = Some ys \<Longrightarrow> xs = map Some ys"
  by (induction xs arbitrary: ys) (auto split: option.splits)

lemma those_Some_D: "those xs = Some ys \<Longrightarrow> None \<notin> set xs"
  using those_None_iff [of xs] by simp

lemma construct_error_iff:
  "(construct_ProbeResult input = Inl TypeError) = (\<not> well_shaped input)"
  by (auto simp: construct_ProbeResult_def well_shaped_def those_None_iff
      split: option.splits dest: those_Some_D)

lemma construct_well_shaped:
  "construct_ProbeResult \<lparr>input_format = Some f, input_streams = Some (map Some ss),
                           input_chapters = Some (map Some cs)\<rparr>
     = Inr (new_ProbeResult \<lparr>info_format = f, info_streams = ss, info_chapters = cs\<rparr>)"
  by (simp add: construct_ProbeResult_def those_map_Some)

lemma construct_result:
  "construct_ProbeResult input = Inr r \<Longrightarrow>
     \<exists>f ss cs. input_format input = Some f
        \<and> r = new_ProbeResult \<lparr>info_format = f, info_streams = ss, info_chapters = cs\<rparr>"
  by (auto simp: construct_ProbeResult_def split: option.splits)

lemma construct_total:
  "well_shaped input \<Longrightarrow> \<exists>r. construct_ProbeResult input = Inr r"
  using construct_error_iff [of input]
  by (cases "construct_ProbeResult input") (auto simp: construct_ProbeResult_def split: option.splits)

lemma quotient_not_finite:
  "a \<noteq> NaN \<Longrightarrow> is_zero b \<Longrightarrow> \<not> is_finite (divide_num a b)"
  by (simp add: divide_by_zero inf_of_def)

text \<open>
  The claim C3 as stated: for every input record every numeric field of a probe result
  is a finite number, and no error arises. It fails for the bitrate of a report without
  \<^verbatim>\<open>bit_rate\<close>, which is not-a-number for the format and for its stream; for a frame rate
  with denominator 0, which is infinite or not-a-number; and for a record without
  \<^verbatim>\<open>streams\<close> or with a \<^verbatim>\<open>null\<close> stream, where the constructor raises a \<^verbatim>\<open>TypeError\<close>.
\<close>

theorem C3_counterexample:
  "construct_ProbeResult
     \<lparr>input_format = Some Map.empty,
      input_streams = Some [Some [''codec_type'' \<mapsto> Str ''video'']],
      input_chapters = Some []\<rparr>
     = Inr (new_ProbeResult \<lparr>info_format = Map.empty,
                             info_streams = [[''codec_type'' \<mapsto> Str ''video'']],
                             info_chapters = []\<rparr>)
   \<and> \<not> is_finite (ProbeResult.bitrate
        (new_ProbeResult \<lparr>info_format = Map.empty,
                          info_streams = [[''codec_type'' \<mapsto> Str ''video'']],
                          info_chapters = []\<rparr>))
   \<and> map (\<lambda>s. BaseStream.bitrate (base s))
        (streams (new_ProbeResult \<lparr>info_format = Map.empty,
                                   info_streams = [[''codec_type'' \<mapsto> Str ''video'']],
                                   info_chapters = []\<rparr>)) = [NaN]
   \<and> frameRate (new_VideoStream [''frame_rate'' \<mapsto> Str ''1/0'']) = PosInf
   \<and> frameRate (new_VideoStream [''frame_rate'' \<mapsto> Str ''0/0'']) = NaN
   \<and> construct_ProbeResult
        \<lparr>input_format = Some Map.empty, input_streams = None, input_chapters = None\<rparr>
       = Inl TypeError
   \<and> construct_ProbeResult
        \<lparr>input_format = Some Map.empty, input_streams = Some [None],
         input_chapters = Some []\<rparr>
       = Inl TypeError"
  by (simp add: construct_ProbeResult_def new_ProbeResult_fields base_toStream
      new_BaseStream_fields new_VideoStream_fields get_def int'_def f64_1_0 f64_0_0)

text \<open>
  C3, amended. The constructor raises a \<^verbatim>\<open>TypeError\<close> exactly on an input record that lacks
  the format object, the array of streams or the array of chapters, or has an absent
  element in one of the arrays; on every other input record it returns a result. In
  every result the fields coerced with \<^verbatim>\<open>| 0\<close> or \<^verbatim>\<open>>>> 0\<close> are finite numbers: start,
  duration and score of the result; index, start and duration of every stream, with
  level and bits per raw sample of a video stream and sample rate, channels and bits per
  sample of an audio stream; id, start and end of every chapter. The bitrates and the
  video sizes are finite exactly when their source coerces to a finite number. A frame
  rate is -1 when a part of its fraction is missing, empty or not a number, and the
  quotient of the parts otherwise, which is not finite when the denominator is a zero.
\<close>

theorem C3_amended:
  "(construct_ProbeResult input = Inl TypeError) = (\<not> well_shaped input)
   \<and> (well_shaped input \<longrightarrow> (\<exists>r. construct_ProbeResult input = Inr r))
   \<and> construct_ProbeResult \<lparr>input_format = Some f, input_streams = Some (map Some ss),
                              input_chapters = Some (map Some cs)\<rparr>
       = Inr (new_ProbeResult \<lparr>info_format = f, info_streams = ss, info_chapters = cs\<rparr>)
   \<and> (construct_ProbeResult input = Inr r \<longrightarrow>
        is_finite (ProbeResult.start r)
        \<and> is_finite (ProbeResult.duration r)
        \<and> is_finite (score r)
        \<and> list_all (\<lambda>s. list_all is_finite (coerced_fields s)) (streams r)
        \<and> list_all (\<lambda>c. list_all is_finite (chapter_fields c)) (chapters r)
        \<and> (\<forall>g. input_format input = Some g \<longrightarrow>
              is_finite (ProbeResult.bitrate r) = is_finite (ToNumber (get g ''bit_rate''))))
   \<and> is_finite (BaseStream.bitrate (base (toStream i)))
       = is_finite (ToNumber (get i ''bit_rate''))
   \<and> is_finite (width (new_VideoStream i)) = is_finite (ToNumber (get i ''width''))
   \<and> is_finite (height (new_VideoStream i)) = is_finite (ToNumber (get i ''height''))
   \<and> is_finite (codedWidth (new_VideoStream i)) = is_finite (ToNumber (get i ''coded_width''))
   \<and> is_finite (codedHeight (new_VideoStream i))
       = is_finite (ToNumber (get i ''coded_height''))
   \<and> frameRate (new_VideoStream i) = f64 (get i ''frame_rate'')
   \<and> avgFrameRate (new_VideoStream i) = f64 (get i ''avg_frame_rate'')
   \<and> (\<not> ToBoolean (element (split CHR ''/'' (ToString v)) 0)
        \<or> \<not> ToBoolean (element (split CHR ''/'' (ToString v)) 1)
        \<or> ToNumber (element (split CHR ''/'' (ToString v)) 0) = NaN
        \<or> ToNumber (element (split CHR ''/'' (ToString v)) 1) = NaN
       \<longrightarrow> f64 v = Fin (- 1))
   \<and> (ToBoolean (element (split CHR ''/'' (ToString v)) 0)
        \<and> ToBoolean (element (split CHR ''/'' (ToString v)) 1)
        \<and> ToNumber (element (split CHR ''/'' (ToString v)) 0) \<noteq> NaN
        \<and> ToNumber (element (split CHR ''/'' (ToString v)) 1) \<noteq> NaN
       \<longrightarrow> f64 v = divide_num (ToNumber (element (split CHR ''/'' (ToString v)) 0))
                                (ToNumber (element (split CHR ''/'' (ToString v)) 1)))
   \<and> (a \<noteq> NaN \<and> is_zero b \<longrightarrow> \<not> is_finite (divide_num a b))"
proof -
  have r: "construct_ProbeResult input = Inr r \<longrightarrow>
        is_finite (ProbeResult.start r)
        \<and> is_finite (ProbeResult.duration r)
        \<and> is_finite (score r)
        \<and> list_all (\<lambda>s. list_all is_finite (coerced_fields s)) (streams r)
        \<and> list_all (\<lambda>c. list_all is_finite (chapter_fields c)) (chapters r)
        \<and> (\<forall>g. input_format input = Some g \<longrightarrow>
              is_finite (ProbeResult.bitrate r) = is_finite (ToNumber (get g ''bit_rate'')))"
  proof
    assume "construct_ProbeResult input = Inr r"
    from construct_result [OF this] obtain f ss cs where
      f: "input_format input = Some f"
      and r: "r = new_ProbeResult \<lparr>info_format = f, info_streams = ss, info_chapters = cs\<rparr>"
      by blast
    show "is_finite (ProbeResult.start r)
        \<and> is_finite (ProbeResult.duration r)
        \<and> is_finite (score r)
        \<and> list_all (\<lambda>s. list_all is_finite (coerced_fields s)) (streams r)
        \<and> list_all (\<lambda>c. list_all is_finite (chapter_fields c)) (chapters r)
        \<and> (\<forall>g. input_format input = Some g \<longrightarrow>
              is_finite (ProbeResult.bitrate r) = is_finite (ToNumber (get g ''bit_rate'')))"
      by (simp add: r f new_ProbeResult_fields wrap_int32_finite all_streams_finite
          all_chapters_finite int'_finite_iff)
  qed
  have q: "a \<noteq> NaN \<and> is_zero b \<longrightarrow> \<not> is_finite (divide_num a b)"
    using quotient_not_finite by blast
  have t: "well_shaped input \<longrightarrow> (\<exists>r. construct_ProbeResult input = Inr r)"
    using construct_total by blast
  have e: "(construct_ProbeResult input = Inl TypeError) = (\<not> well_shaped input)"
    by (rule construct_error_iff)
  have rest: "is_finite (BaseStream.bitrate (base (toStream i)))
       = is_finite (ToNumber (get i ''bit_rate''))
   \<and> is_finite (width (new_VideoStream i)) = is_finite (ToNumber (get i ''width''))
   \<and> is_finite (height (new_VideoStream i)) = is_finite (ToNumber (get i ''height''))
   \<and> is_finite (codedWidth (new_VideoStream i)) = is_finite (ToNumber (get i ''coded_width''))
   \<and> is_finite (codedHeight (new_VideoStream i))
       = is_finite (ToNumber (get i ''coded_height''))
   \<and> frameRate (new_VideoStream i) = f64 (get i ''frame_rate'')
   \<and> avgFrameRate (new_VideoStream i) = f64 (get i ''avg_frame_rate'')"
    by (simp add: int'_finite_iff base_toStream new_BaseStream_fields new_VideoStream_fields)
  have f: "(\<not> ToBoolean (element (split CHR ''/'' (ToString v)) 0)
        \<or> \<not> ToBoolean (element (split CHR ''/'' (ToString v)) 1)
        \<or> ToNumber (element (split CHR ''/'' (ToString v)) 0) = NaN
        \<or> ToNumber (element (split CHR ''/'' (ToString v)) 1) = NaN
       \<longrightarrow> f64 v = Fin (- 1))
   \<and> (ToBoolean (element (split CHR ''/'' (ToString v)) 0)
        \<and> ToBoolean (element (split CHR ''/'' (ToString v)) 1)
        \<and> ToNumber (element (split CHR ''/'' (ToString v)) 0) \<noteq> NaN
        \<and> ToNumber (element (split CHR ''/'' (ToString v)) 1) \<noteq> NaN
       \<longrightarrow> f64 v = divide_num (ToNumber (element (split CHR ''/'' (ToString v)) 0))
                                (ToNumber (element (split CHR ''/'' (ToString v)) 1)))"
    by (simp add: f64_cases Let_def)
  show ?thesis
    using e t r q rest f construct_well_shaped [of f ss cs] by (intro conjI) blast+
qed

text \<open>
  A report with an empty format, an empty stream record and a malformed chapter start,
  and the quotient of 1 and 0.
\<close>

theorem C3_amended_witness:
  "well_shaped \<lparr>input_format = Some Map.empty, input_streams = Some [Some Map.empty],
                 input_chapters = Some [Some [''start'' \<mapsto> Str ''oops'']]\<rparr>
   \<and> construct_ProbeResult
         \<lparr>input_format = Some Map.empty, input_streams = Some [Some Map.empty],
          input_chapters = Some [Some [''start'' \<mapsto> Str ''oops'']]\<rparr>
       = Inr (new_ProbeResult \<lparr>info_format = Map.empty, info_streams = [Map.empty],
                               info_chapters = [[''start'' \<mapsto> Str ''oops'']]\<rparr>)
   \<and> list_all (\<lambda>c. list_all is_finite (chapter_fields c))
        (chapters (new_ProbeResult \<lparr>info_format = Map.empty, info_streams = [Map.empty],
                                    info_chapters = [[''start'' \<mapsto> Str ''oops'']]\<rparr>))
   \<and> list_all (\<lambda>s. list_all is_finite (coerced_fields s))
        (streams (new_ProbeResult \<lparr>info_format = Map.empty, info_streams = [Map.empty],
                                   info_chapters = [[''start'' \<mapsto> Str ''oops'']]\<rparr>))
   \<and> \<not> is_finite (divide_num (Fin 1) (Fin 0))"
proof -
  let ?input = "\<lparr>input_format = Some Map.empty, input_streams = Some [Some Map.empty],
                 input_chapters = Some [Some [''start'' \<mapsto> Str ''oops'']]\<rparr>"
  let ?r = "new_ProbeResult \<lparr>info_format = Map.empty, info_streams = [Map.empty],
                               info_chapters = [[''start'' \<mapsto> Str ''oops'']]\<rparr>"
  have w: "well_shaped ?input" by (simp add: well_shaped_def)
  have c: "construct_ProbeResult ?input = Inr ?r" by (simp add: construct_ProbeResult_def)
  show ?thesis
    using w c C3_amended [of ?input Map.empty "[Map.empty]" "[[''start'' \<mapsto> Str ''oops'']]"
        ?r Map.empty "Str ''30''" "Fin 1" "Fin 0"]
    by simp
qed

section \<open>Stream variants\<close>

lemma type_of_toStream:
  "type_of (toStream info) =
     (let t = ToString (get info ''codec_type'')
      in if t = ''video'' then ''video'' else if t = ''audio'' then ''audio''
         else if t = ''subtitle'' then ''subtitle'' else ''data'')"
  by (simp add: toStream_def Let_def)

text \<open>
  C7. The class of a stream depends only on the text of the source's \<^verbatim>\<open>codec_type\<close>:
  exactly \<^verbatim>\<open>video\<close> gives a \<^verbatim>\<open>VideoStream\<close>, exactly \<^verbatim>\<open>audio\<close> an \<^verbatim>\<open>AudioStream\<close>, exactly
  \<^verbatim>\<open>subtitle\<close> a \<^verbatim>\<open>SubtitleStream\<close>, and any other value, an absent one included, a
  \<^verbatim>\<open>DataStream\<close>. A record with \<^verbatim>\<open>codec_type\<close> \<^verbatim>\<open>video\<close> and neither frame rate nor start
  time nor duration gives a \<^verbatim>\<open>VideoStream\<close> with frame rate -1 and start and duration 0.
\<close>

theorem C7_stream_variant:
  "(ToString (get info ''codec_type'') = ''video''
      \<longrightarrow> toStream info = Video (new_VideoStream info))
   \<and> (ToString (get info ''codec_type'') = ''audio''
      \<longrightarrow> toStream info = Audio (new_AudioStream info))
   \<and> (ToString (get info ''codec_type'') = ''subtitle''
      \<longrightarrow> toStream info = Subtitle (new_SubtitleStream info))
   \<and> (ToString (get info ''codec_type'') \<notin> {''video'', ''audio'', ''subtitle''}
      \<longrightarrow> toStream info = Data (new_DataStream info))
   \<and> (info ''codec_type'' = None \<longrightarrow> toStream info = Data (new_DataStream info))
   \<and> (ToString (get info ''codec_type'') = ToString (get info' ''codec_type'')
      \<longrightarrow> type_of (toStream info) = type_of (toStream info'))
   \<and> (ToString (get info ''codec_type'') = ''video''
        \<and> info ''frame_rate'' = None \<and> info ''start_time'' = None \<and> info ''duration'' = None
      \<longrightarrow> (\<exists>s. toStream info = Video s \<and> frameRate s = Fin (- 1)
               \<and> BaseStream.start s = Fin 0 \<and> BaseStream.duration s = Fin 0))"
  by (simp add: type_of_toStream) (simp add: toStream_def Let_def get_def new_VideoStream_fields
      stream_base_fields new_BaseStream_fields f64_Undefined mul_NaN)

text \<open>The record that has only \<^verbatim>\<open>codec_type: "video"\<close>, and the other three classes.\<close>

theorem C7_stream_variant_witness:
  "ToString (get [''codec_type'' \<mapsto> Str ''video''] ''codec_type'') = ''video''
   \<and> (\<exists>s. toStream [''codec_type'' \<mapsto> Str ''video''] = Video s \<and> frameRate s = Fin (- 1)
            \<and> BaseStream.start s = Fin 0 \<and> BaseStream.duration s = Fin 0)
   \<and> type_of (toStream [''codec_type'' \<mapsto> Str ''audio'']) = ''audio''
   \<and> type_of (toStream [''codec_type'' \<mapsto> Str ''subtitle'']) = ''subtitle''
   \<and> type_of (toStream [''codec_type'' \<mapsto> Str ''Video'']) = ''data''
   \<and> type_of (toStream Map.empty) = ''data''"
proof -
  have "\<exists>s. toStream [''codec_type'' \<mapsto> Str ''video''] = Video s \<and> frameRate s = Fin (- 1)
            \<and> BaseStream.start s = Fin 0 \<and> BaseStream.duration s = Fin 0"
    using C7_stream_variant [of "[''codec_type'' \<mapsto> Str ''video'']" Map.empty]
    by (auto simp: get_def)
  then show ?thesis
    by (simp add: type_of_toStream get_def)
qed

section \<open>Filter descriptions\<close>




lemma escape_spec_append: "escape_spec S (a @ b) = escape_spec S a @ escape_spec S b"
  by (simp add: escape_spec_def)



lemma map_raising_total:
  "map_raising (\<lambda>x. Inr (f x)) xs = Inr (map f xs)"
  by (induction xs) simp_all





lemma array_of_primitives:
  "stringifyArrayColonSeparated (map Prim vs)
     = Inr (join '':'' (map (\<lambda>v. escapeFilterValue (ToString v))
                           (filter (\<lambda>v. v \<noteq> Undefined \<and> v \<noteq> Null) vs)))"
proof -
  have n: "isNullish (Prim v) = (v = Undefined \<or> v = Null)" for v
    by (cases v) simp_all
  have f: "filter (\<lambda>value. \<not> isNullish value) (map Prim vs)
        = map Prim (filter (\<lambda>v. v \<noteq> Undefined \<and> v \<noteq> Null) vs)"
    by (induction vs) (auto simp: n)
  have m: "map_raising (\<lambda>value. case stringifyValue value of
                                Inl e \<Rightarrow> Inl e
                              | Inr s \<Rightarrow> Inr (escapeFilterValue s))
             (map Prim xs)
        = Inr (map (\<lambda>v. escapeFilterValue (ToString v)) xs)" for xs
    by (induction xs) auto
  show ?thesis
    by (simp add: stringifyArrayColonSeparated_def f m)
qed




section \<open>The matcher and the texts of a pattern\<close>

text \<open>
  The backtracking matcher leaves exactly the rests after a front segment that the
  pattern denotes, so a search finds a match exactly when some segment of the text is
  denoted by the pattern.
\<close>

lemma rests_simps:
  "rests [] = {}" "rests (x # xs) = insert (fst x) (rests xs)"
  "rests (xs @ ys) = rests xs \<union> rests ys"
  "rests (concat xss) = (\<Union>xs \<in> set xss. rests xs)"
  by (auto simp: rests_def)

lemma rests_bind:
  "rests (concat (map f xs)) = (\<Union>st \<in> set xs. rests (f st))"
  by (auto simp: rests_def)

lemma in_rests: "rest \<in> rests xs \<longleftrightarrow> (\<exists>c. (rest, c) \<in> set xs)"
  by (force simp: rests_def)

lemma matches_langD:
  "matches_lang m L \<Longrightarrow> (rest \<in> rests (m (s, c))) = (\<exists>p. p \<in> L \<and> s = p @ rest)"
  by (simp add: matches_lang_def)

lemma matches_lang_sound:
  "matches_lang m L \<Longrightarrow> rest \<in> rests (m (s, c)) \<Longrightarrow> \<exists>p. p \<in> L \<and> s = p @ rest"
  by (simp add: matches_lang_def)

lemma matches_lang_complete:
  "matches_lang m L \<Longrightarrow> p \<in> L \<Longrightarrow> s = p @ rest \<Longrightarrow> rest \<in> rests (m (s, c))"
  by (auto simp: matches_lang_def)

lemma seq_lang:
  assumes a: "matches_lang ma A" and b: "matches_lang mb B"
  shows "matches_lang (\<lambda>st. concat (map mb (ma st))) {p @ q |p q. p \<in> A \<and> q \<in> B}"
  unfolding matches_lang_def
proof (intro allI set_eqI iffI)
  fix s c rest
  assume "rest \<in> rests (concat (map mb (ma (s, c))))"
  then obtain st where st: "st \<in> set (ma (s, c))" "rest \<in> rests (mb st)"
    by (auto simp: rests_bind)
  obtain s1 c1 where st1: "st = (s1, c1)" by (cases st)
  from st(1) st1 have "s1 \<in> rests (ma (s, c))" by (auto simp: in_rests)
  from matches_lang_sound [OF a this] obtain p where p: "p \<in> A" "s = p @ s1" by blast
  from st(2) st1 have "rest \<in> rests (mb (s1, c1))" by simp
  from matches_lang_sound [OF b this] obtain q where q: "q \<in> B" "s1 = q @ rest" by blast
  from p q show "rest \<in> {rest. \<exists>p. p \<in> {p @ q |p q. p \<in> A \<and> q \<in> B} \<and> s = p @ rest}"
    by auto
next
  fix s c rest
  assume "rest \<in> {rest. \<exists>p. p \<in> {p @ q |p q. p \<in> A \<and> q \<in> B} \<and> s = p @ rest}"
  then obtain p q where pq: "p \<in> A" "q \<in> B" "s = p @ q @ rest" by auto
  then have "q @ rest \<in> rests (ma (s, c))" by (intro matches_lang_complete [OF a])
  then obtain c1 where c1: "(q @ rest, c1) \<in> set (ma (s, c))" by (auto simp: in_rests)
  have "rest \<in> rests (mb (q @ rest, c1))" by (rule matches_lang_complete [OF b pq(2) refl])
  with c1 show "rest \<in> rests (concat (map mb (ma (s, c))))"
    by (auto simp: rests_bind)
qed


lemma opt_lang:
  assumes a: "matches_lang m A"
  shows "matches_lang (\<lambda>st. filter (progress st) (m st) @ [st]) (insert [] A)"
  unfolding matches_lang_def
proof (intro allI set_eqI iffI)
  fix s c rest
  assume "rest \<in> rests (filter (progress (s, c)) (m (s, c)) @ [(s, c)])"
  then have "rest = s \<or> rest \<in> rests (m (s, c))"
    by (auto simp: rests_def)
  then show "rest \<in> {rest. \<exists>p. p \<in> insert [] A \<and> s = p @ rest}"
    using matches_langD [OF a, of rest s c] by auto
next
  fix s c rest
  assume "rest \<in> {rest. \<exists>p. p \<in> insert [] A \<and> s = p @ rest}"
  then obtain p where p: "p = [] \<or> p \<in> A" "s = p @ rest" by auto
  show "rest \<in> rests (filter (progress (s, c)) (m (s, c)) @ [(s, c)])"
  proof (cases "p = []")
    case True
    with p(2) show ?thesis by (simp add: rests_def)
  next
    case False
    with p have "p \<in> A" by simp
    then have "rest \<in> rests (m (s, c))" using p(2) by (intro matches_lang_complete [OF a])
    then obtain c1 where c1: "(rest, c1) \<in> set (m (s, c))" by (auto simp: in_rests)
    have "progress (s, c) (rest, c1)" using False p(2) by (simp add: progress_def)
    with c1 have "(rest, c1) \<in> set (filter (progress (s, c)) (m (s, c)))" by simp
    then show ?thesis by (force simp: rests_def)
  qed
qed

lemma group_lang:
  assumes a: "matches_lang m A"
  shows "matches_lang (\<lambda>st. map (capture k st) (m st)) A"
proof -
  have "rests (map (capture k st) xs) = rests xs" for st xs
    by (force simp: rests_def capture_def)
  then show ?thesis using a by (simp add: matches_lang_def)
qed

lemma repeat_n_lang:
  assumes a: "matches_lang m A"
  shows "matches_lang (repeat_n n m) {concat ps |ps. length ps = n \<and> set ps \<subseteq> A}"
proof (induction n)
  case 0
  show ?case by (auto simp: matches_lang_def rests_def)
next
  case (Suc n)
  let ?B = "{concat ps |ps. length ps = n \<and> set ps \<subseteq> A}"
  have "matches_lang (\<lambda>st. concat (map (repeat_n n m) (m st))) {p @ q |p q. p \<in> A \<and> q \<in> ?B}"
    by (rule seq_lang [OF a Suc])
  moreover have "{p @ q |p q. p \<in> A \<and> q \<in> ?B}
      = {concat ps |ps. length ps = Suc n \<and> set ps \<subseteq> A}" (is "?L = ?R")
  proof (intro set_eqI iffI)
    fix x assume "x \<in> ?L"
    then obtain p ps where "p \<in> A" "length ps = n" "set ps \<subseteq> A" "x = p @ concat ps" by auto
    then have "x = concat (p # ps) \<and> length (p # ps) = Suc n \<and> set (p # ps) \<subseteq> A" by simp
    then show "x \<in> ?R" by blast
  next
    fix x assume "x \<in> ?R"
    then obtain ps where ps: "length ps = Suc n" "set ps \<subseteq> A" "x = concat ps" by auto
    then obtain p ps' where "ps = p # ps'" by (cases ps) auto
    with ps show "x \<in> ?L" by auto
  qed
  moreover have "repeat_n (Suc n) m = (\<lambda>st. concat (map (repeat_n n m) (m st)))"
    by (rule ext) simp
  ultimately show ?case by simp
qed


lemma further_sound_aux:
  "matches_lang m A \<Longrightarrow> rest \<in> rests (further m st)
     \<Longrightarrow> \<exists>ps. set ps \<subseteq> A \<and> fst st = concat ps @ rest"
proof (induction m st rule: further.induct)
  case (1 m st)
  note a = "1.prems"(1)
  from "1.prems"(2)
  have "rest \<in> rests (concat (map (further m) (filter (progress st) (m st))) @ [st])"
    by (subst (asm) further.simps) simp
  then consider "rest = fst st"
    | st1 where "st1 \<in> set (filter (progress st) (m st))" "rest \<in> rests (further m st1)"
    by (auto simp: rests_simps rests_bind)
  then show ?case
  proof cases
    case 1
    then have "set [] \<subseteq> A \<and> fst st = concat [] @ rest" by simp
    then show ?thesis by blast
  next
    case 2
    from "1.IH" [OF 2(1) a 2(2)] obtain ps where ps: "set ps \<subseteq> A" "fst st1 = concat ps @ rest"
      by blast
    obtain s c where st: "st = (s, c)" by (cases st)
    from 2(1) have "fst st1 \<in> rests (m (s, c))" by (auto simp: st rests_def)
    from matches_lang_sound [OF a this] obtain p where p: "p \<in> A" "s = p @ fst st1" by blast
    from p ps have "set (p # ps) \<subseteq> A \<and> fst st = concat (p # ps) @ rest" by (simp add: st)
    then show ?thesis by blast
  qed
qed

lemma further_sound:
  assumes a: "matches_lang m A"
  shows "rest \<in> rests (further m st) \<Longrightarrow> \<exists>ps. set ps \<subseteq> A \<and> fst st = concat ps @ rest"
  using a by (rule further_sound_aux)

lemma further_complete:
  assumes a: "matches_lang m A"
  shows "set ps \<subseteq> A \<Longrightarrow> s = concat ps @ rest \<Longrightarrow> rest \<in> rests (further m (s, c))"
proof (induction ps arbitrary: s c)
  case Nil
  then show ?case by (subst further.simps) (simp add: rests_simps)
next
  case (Cons p ps)
  show ?case
  proof (cases "p = []")
    case True
    with Cons.prems have "set ps \<subseteq> A" "s = concat ps @ rest" by simp_all
    then show ?thesis by (rule Cons.IH)
  next
    case False
    let ?s1 = "concat ps @ rest"
    from Cons.prems have p: "p \<in> A" "s = p @ ?s1" "set ps \<subseteq> A" by simp_all
    then have "?s1 \<in> rests (m (s, c))" by (intro matches_lang_complete [OF a])
    then obtain c1 where c1: "(?s1, c1) \<in> set (m (s, c))" by (auto simp: in_rests)
    have "progress (s, c) (?s1, c1)" using False p(2) by (simp add: progress_def)
    with c1 have f: "(?s1, c1) \<in> set (filter (progress (s, c)) (m (s, c)))" by simp
    have "rest \<in> rests (further m (?s1, c1))" by (rule Cons.IH [OF p(3) refl])
    with f have "rest \<in> rests (concat (map (further m) (filter (progress (s, c)) (m (s, c)))))"
      by (auto simp: rests_bind)
    then show ?thesis by (subst further.simps) (simp add: rests_simps)
  qed
qed

lemma plus_lang:
  assumes a: "matches_lang m A"
  shows "matches_lang (\<lambda>st. concat (map (further m) (m st)))
           {concat ps |ps. ps \<noteq> [] \<and> set ps \<subseteq> A}"
  unfolding matches_lang_def
proof (intro allI set_eqI iffI)
  fix s c rest
  assume "rest \<in> rests (concat (map (further m) (m (s, c))))"
  then obtain st1 where st1: "st1 \<in> set (m (s, c))" "rest \<in> rests (further m st1)"
    by (auto simp: rests_bind)
  from further_sound [OF a st1(2)] obtain ps where ps: "set ps \<subseteq> A" "fst st1 = concat ps @ rest"
    by blast
  from st1(1) have "fst st1 \<in> rests (m (s, c))" by (auto simp: rests_def)
  from matches_lang_sound [OF a this] obtain p where p: "p \<in> A" "s = p @ fst st1" by blast
  from p ps have "p # ps \<noteq> [] \<and> set (p # ps) \<subseteq> A \<and> s = concat (p # ps) @ rest" by simp
  then show "rest \<in> {rest. \<exists>p. p \<in> {concat ps |ps. ps \<noteq> [] \<and> set ps \<subseteq> A} \<and> s = p @ rest}"
    by blast
next
  fix s c rest
  assume "rest \<in> {rest. \<exists>p. p \<in> {concat ps |ps. ps \<noteq> [] \<and> set ps \<subseteq> A} \<and> s = p @ rest}"
  then obtain ps where ps: "ps \<noteq> []" "set ps \<subseteq> A" "s = concat ps @ rest" by auto
  then obtain p ps' where pp: "ps = p # ps'" by (cases ps) auto
  let ?s1 = "concat ps' @ rest"
  from ps pp have p: "p \<in> A" "s = p @ ?s1" "set ps' \<subseteq> A" by simp_all
  then have "?s1 \<in> rests (m (s, c))" by (intro matches_lang_complete [OF a])
  then obtain c1 where c1: "(?s1, c1) \<in> set (m (s, c))" by (auto simp: in_rests)
  have "rest \<in> rests (further m (?s1, c1))" by (rule further_complete [OF a p(3) refl])
  with c1 show "rest \<in> rests (concat (map (further m) (m (s, c))))"
    by (auto simp: rests_bind)
qed

lemma chr_lang: "matches_lang (rmatch (Chr x)) {[x]}"
  by (auto simp: matches_lang_def rests_def split: list.splits)

lemma class_lang: "matches_lang (rmatch (Class cs)) {[x] |x. x \<in> set cs}"
  by (auto simp: matches_lang_def rests_def split: list.splits)

lemma rmatch_lang: "matches_lang (rmatch r) (lang r)"
proof (induction r)
  case (Chr x)
  show ?case using chr_lang by simp
next
  case (Class cs)
  show ?case using class_lang by simp
next
  case (Seq a b)
  then show ?case using seq_lang [of "rmatch a" "lang a" "rmatch b" "lang b"] by simp
next
  case (Opt r)
  then show ?case using opt_lang [of "rmatch r" "lang r"] by simp
next
  case (Plus r)
  then show ?case using plus_lang [of "rmatch r" "lang r"] by simp
next
  case (Times n r)
  then show ?case using repeat_n_lang [of "rmatch r" "lang r" n] by simp
next
  case (Group k r)
  then show ?case using group_lang [of "rmatch r" "lang r" k] by simp
qed

lemma rmatch_empty_iff:
  "rmatch r (s, c) = [] \<longleftrightarrow> (\<forall>p rest. s = p @ rest \<longrightarrow> p \<notin> lang r)"
proof -
  have "rmatch r (s, c) = [] \<longleftrightarrow> rests (rmatch r (s, c)) = {}"
    by (simp add: rests_def)
  also have "\<dots> \<longleftrightarrow> (\<forall>p rest. s = p @ rest \<longrightarrow> p \<notin> lang r)"
    using rmatch_lang [of r] by (auto simp: matches_lang_def)
  finally show ?thesis .
qed

lemma match_None_iff:
  "match r s = None \<longleftrightarrow> (\<forall>pre mid post. s = pre @ mid @ post \<longrightarrow> mid \<notin> lang r)"
proof (induction s)
  case Nil
  have "match r [] = None \<longleftrightarrow> rmatch r ([], Map.empty) = []"
    by (simp split: list.splits)
  then show ?case by (simp add: rmatch_empty_iff)
next
  case (Cons x xs)
  have "match r (x # xs) = None
      \<longleftrightarrow> rmatch r (x # xs, Map.empty) = [] \<and> match r xs = None"
    by (simp split: list.splits)
  also have "\<dots> \<longleftrightarrow> (\<forall>p rest. x # xs = p @ rest \<longrightarrow> p \<notin> lang r)
      \<and> (\<forall>pre mid post. xs = pre @ mid @ post \<longrightarrow> mid \<notin> lang r)"
    by (simp only: rmatch_empty_iff Cons.IH)
  also have "\<dots> \<longleftrightarrow> (\<forall>pre mid post. x # xs = pre @ mid @ post \<longrightarrow> mid \<notin> lang r)"
  proof (intro iffI allI impI)
    fix pre mid post
    assume h: "(\<forall>p rest. x # xs = p @ rest \<longrightarrow> p \<notin> lang r)
      \<and> (\<forall>pre mid post. xs = pre @ mid @ post \<longrightarrow> mid \<notin> lang r)"
      and e: "x # xs = pre @ mid @ post"
    show "mid \<notin> lang r"
    proof (cases pre)
      case Nil
      with e h show ?thesis by auto
    next
      case (Cons y pre')
      with e have "xs = pre' @ mid @ post" by simp
      with h show ?thesis by blast
    qed
  next
    assume h: "\<forall>pre mid post. x # xs = pre @ mid @ post \<longrightarrow> mid \<notin> lang r"
    show "(\<forall>p rest. x # xs = p @ rest \<longrightarrow> p \<notin> lang r)
      \<and> (\<forall>pre mid post. xs = pre @ mid @ post \<longrightarrow> mid \<notin> lang r)"
    proof (intro conjI allI impI)
      fix p rest assume "x # xs = p @ rest"
      then have "x # xs = [] @ p @ rest" by simp
      with h show "p \<notin> lang r" by blast
    next
      fix pre mid post assume "xs = pre @ mid @ post"
      then have "x # xs = (x # pre) @ mid @ post" by simp
      with h show "mid \<notin> lang r" by blast
    qed
  qed
  finally show ?case .
qed

section \<open>The timestamp pattern and the grammar\<close>

lemma lang_digit: "lang digit = {[c] |c. is_digit c}"
  by (simp add: digit_def is_digit_def)

lemma singles_concat:
  "set ps \<subseteq> {[c] |c. is_digit c} \<Longrightarrow> list_all is_digit (concat ps) \<and> length (concat ps) = length ps"
  by (induction ps) auto

lemma concat_singles: "concat (map (\<lambda>c. [c]) ds) = ds"
  by (induction ds) simp_all

lemma singles_digits: "list_all is_digit s \<Longrightarrow> set (map (\<lambda>c. [c]) s) \<subseteq> lang digit"
  by (induction s) (auto simp: lang_digit)

lemma in_two_digits: "s \<in> lang (Times 2 digit) \<longleftrightarrow> two_digits s"
proof
  assume "s \<in> lang (Times 2 digit)"
  then obtain ps where ps: "length ps = 2" "set ps \<subseteq> {[c] |c. is_digit c}" "s = concat ps"
    by (auto simp: lang_digit)
  from singles_concat [OF ps(2)] ps show "two_digits s"
    by (simp add: two_digits_def)
next
  assume "two_digits s"
  then have s: "length s = 2" "list_all is_digit s" by (simp_all add: two_digits_def)
  let ?ps = "map (\<lambda>c. [c]) s"
  have "s = concat ?ps \<and> length ?ps = 2 \<and> set ?ps \<subseteq> lang digit"
    using s singles_digits [of s] by (simp add: concat_singles)
  then have "\<exists>ps. s = concat ps \<and> length ps = 2 \<and> set ps \<subseteq> lang digit" by (rule exI)
  then show "s \<in> lang (Times 2 digit)" by simp
qed

lemma in_digits: "s \<in> lang (Plus digit) \<longleftrightarrow> s \<noteq> [] \<and> list_all is_digit s"
proof
  assume "s \<in> lang (Plus digit)"
  then obtain ps where ps: "ps \<noteq> []" "set ps \<subseteq> {[c] |c. is_digit c}" "s = concat ps"
    by (auto simp: lang_digit)
  from singles_concat [OF ps(2)]
  have "list_all is_digit (concat ps)" "length (concat ps) = length ps" by simp_all
  moreover from this(2) ps(1) have "concat ps \<noteq> []" by (metis length_0_conv)
  ultimately show "s \<noteq> [] \<and> list_all is_digit s" using ps(3) by simp
next
  assume "s \<noteq> [] \<and> list_all is_digit s"
  then have s: "s \<noteq> []" "list_all is_digit s" by simp_all
  let ?ps = "map (\<lambda>c. [c]) s"
  have "s = concat ?ps \<and> ?ps \<noteq> [] \<and> set ?ps \<subseteq> lang digit"
    using s singles_digits [of s] by (simp add: concat_singles)
  then have "\<exists>ps. s = concat ps \<and> ps \<noteq> [] \<and> set ps \<subseteq> lang digit" by (rule exI)
  then show "s \<in> lang (Plus digit)" by simp
qed

lemma in_Seq: "x \<in> lang (Seq a b) \<longleftrightarrow> (\<exists>p q. x = p @ q \<and> p \<in> lang a \<and> q \<in> lang b)"
  by auto

lemma in_Opt: "x \<in> lang (Opt r) \<longleftrightarrow> x = [] \<or> x \<in> lang r"
  by auto

lemma in_Group: "x \<in> lang (Group k r) \<longleftrightarrow> x \<in> lang r"
  by simp

lemma in_Chr: "x \<in> lang (Chr c) \<longleftrightarrow> x = [c]"
  by simp

lemma SeqI: "p \<in> lang a \<Longrightarrow> q \<in> lang b \<Longrightarrow> p @ q \<in> lang (Seq a b)"
  by auto

lemma SeqE:
  assumes "x \<in> lang (Seq a b)"
  obtains p q where "x = p @ q" "p \<in> lang a" "q \<in> lang b"
  using assms by auto

lemma lang_timestamp: "s \<in> lang TIMESTAMP_REGEXP \<longleftrightarrow> timestamp_shaped s"
proof
  let ?F = "Opt (Group 5 (Seq (Chr CHR ''.'') (Plus digit)))"
  let ?S = "Seq (Group 4 (Times 2 digit)) ?F"
  let ?C = "Seq (Chr CHR '':'') ?S"
  let ?M = "Seq (Group 3 (Times 2 digit)) ?C"
  let ?H = "Opt (Group 2 (Seq (Times 2 digit) (Chr CHR '':'')))"
  assume "s \<in> lang TIMESTAMP_REGEXP"
  then have "s \<in> lang (Seq (Group 1 (Opt (Chr CHR ''-''))) (Seq ?H ?M))"
    by (simp only: TIMESTAMP_REGEXP_def)
  then obtain sg r1 where 1: "s = sg @ r1" "sg \<in> lang (Group 1 (Opt (Chr CHR ''-'')))"
    "r1 \<in> lang (Seq ?H ?M)" by (rule SeqE)
  from 1(3) obtain hh r2 where 2: "r1 = hh @ r2" "hh \<in> lang ?H" "r2 \<in> lang ?M" by (rule SeqE)
  from 2(3) obtain mm r3 where 3: "r2 = mm @ r3" "mm \<in> lang (Group 3 (Times 2 digit))"
    "r3 \<in> lang ?C" by (rule SeqE)
  from 3(3) obtain c r4 where 4: "r3 = c @ r4" "c \<in> lang (Chr CHR '':'')" "r4 \<in> lang ?S"
    by (rule SeqE)
  from 4(3) obtain ss fr where 5: "r4 = ss @ fr" "ss \<in> lang (Group 4 (Times 2 digit))"
    "fr \<in> lang ?F" by (rule SeqE)
  have e: "s = sg @ hh @ mm @ '':'' @ ss @ fr" using 1(1) 2(1) 3(1) 4(1) 4(2) 5(1) by simp
  have sg: "sg = [] \<or> sg = ''-''" using 1(2) by auto
  have hh: "hh = [] \<or> (\<exists>h. hh = h @ '':'' \<and> two_digits h)"
    using 2(2) by (simp only: in_Opt in_Group in_Seq in_Chr in_two_digits) blast
  have mm: "two_digits mm" using 3(2) by (simp only: in_Group in_two_digits)
  have ss: "two_digits ss" using 5(2) by (simp only: in_Group in_two_digits)
  have fr: "fr = [] \<or> (\<exists>ds. fr = CHR ''.'' # ds \<and> ds \<noteq> [] \<and> list_all is_digit ds)"
    using 5(3) by (simp only: in_Opt in_Group in_Seq in_Chr in_digits) auto
  from e sg hh mm ss fr
  have "\<exists>sg hh mm ss fr. s = sg @ hh @ mm @ '':'' @ ss @ fr
        \<and> (sg = [] \<or> sg = ''-'')
        \<and> (hh = [] \<or> (\<exists>h. hh = h @ '':'' \<and> two_digits h))
        \<and> two_digits mm \<and> two_digits ss
        \<and> (fr = [] \<or> (\<exists>ds. fr = CHR ''.'' # ds \<and> ds \<noteq> [] \<and> list_all is_digit ds))"
    by (intro exI conjI)
  then show "timestamp_shaped s" by (simp only: timestamp_shaped_def)
next
  assume "timestamp_shaped s"
  then have "\<exists>sg hh mm ss fr. s = sg @ hh @ mm @ '':'' @ ss @ fr
        \<and> (sg = [] \<or> sg = ''-'')
        \<and> (hh = [] \<or> (\<exists>h. hh = h @ '':'' \<and> two_digits h))
        \<and> two_digits mm \<and> two_digits ss
        \<and> (fr = [] \<or> (\<exists>ds. fr = CHR ''.'' # ds \<and> ds \<noteq> [] \<and> list_all is_digit ds))"
    by (simp only: timestamp_shaped_def)
  then obtain sg hh mm ss fr where h:
    "s = sg @ hh @ mm @ '':'' @ ss @ fr"
    "sg = [] \<or> sg = ''-''"
    "hh = [] \<or> (\<exists>h. hh = h @ '':'' \<and> two_digits h)"
    "two_digits mm" "two_digits ss"
    "fr = [] \<or> (\<exists>ds. fr = CHR ''.'' # ds \<and> ds \<noteq> [] \<and> list_all is_digit ds)"
    by (elim exE conjE)
  have fr: "fr \<in> lang (Opt (Group 5 (Seq (Chr CHR ''.'') (Plus digit))))"
    using h(6) by (simp only: in_Opt in_Group in_Seq in_Chr in_digits) auto
  have ss: "ss \<in> lang (Group 4 (Times 2 digit))"
    using h(5) by (simp only: in_Group in_two_digits)
  have c: "'':'' \<in> lang (Chr CHR '':'')" by simp
  have mm: "mm \<in> lang (Group 3 (Times 2 digit))"
    using h(4) by (simp only: in_Group in_two_digits)
  have hh: "hh \<in> lang (Opt (Group 2 (Seq (Times 2 digit) (Chr CHR '':''))))"
    using h(3) by (simp only: in_Opt in_Group in_Seq in_Chr in_two_digits) blast
  have sg: "sg \<in> lang (Group 1 (Opt (Chr CHR ''-'')))"
    using h(2) by auto
  have "sg @ hh @ mm @ '':'' @ ss @ fr \<in> lang TIMESTAMP_REGEXP"
    unfolding TIMESTAMP_REGEXP_def
    by (intro SeqI sg hh mm c ss fr)
  then show "s \<in> lang TIMESTAMP_REGEXP" by (simp only: h(1))
qed

section \<open>parseTimestamp\<close>

lemma match_example:
  "\<exists>m. match TIMESTAMP_REGEXP ''01:02:03.5'' = Some m
       \<and> map (capture_of m) [1, 2, 3, 4, 5]
           = [Str [], Str ''01:'', Str ''02'', Str ''03'', Str ''.5'']"
proof -
  have "map_option (\<lambda>m. map (capture_of m) [1, 2, 3, 4, 5])
          (match TIMESTAMP_REGEXP ''01:02:03.5'')
        = Some [Str [], Str ''01:'', Str ''02'', Str ''03'', Str ''.5'']"
    by code_simp
  then show ?thesis by (cases "match TIMESTAMP_REGEXP ''01:02:03.5''") auto
qed

lemma StringToNumber_digits:
  "StringToNumber ''01'' = Fin 1" "StringToNumber ''02'' = Fin 2" "StringToNumber ''03'' = Fin 3"
  "StringToNumber ''.5'' = Fin (1 / 2)"
  by (simp_all add: StringToNumber_def trim_def is_ws_def decimal_literal_def is_digit_def
      digits_value_def digit_value_def pow_int_def round64_def ilog_def round_half_even_def Let_def)

lemma mul_examples:
  "mul (Fin 1) (Fin 3600000) = Fin 3600000"
  "mul (Fin 2) (Fin 60000) = Fin 120000"
  "mul (Fin 3) (Fin 1000) = Fin 3000"
  "mul (Fin (1 / 2)) (Fin 1000) = Fin 500"
  "mul (Fin 1) (Fin 3723500) = Fin 3723500"
  by (simp_all add: mul_def round64_def ilog_def round_half_even_def pow_int_def Let_def)

lemma add_examples:
  "add (Fin 3600000) (Fin 120000) = Fin 3720000"
  "add (Fin 3720000) (Fin 3000) = Fin 3723000"
  "add (Fin 3723000) (Fin 500) = Fin 3723500"
  by (simp_all add: add_def round64_def ilog_def round_half_even_def pow_int_def Let_def)

lemma parseTimestamp_example: "parseTimestamp ''01:02:03.5'' = Some (Fin 3723500)"
proof -
  obtain m where m: "match TIMESTAMP_REGEXP ''01:02:03.5'' = Some m"
    "capture_of m 1 = Str []" "capture_of m 2 = Str ''01:''" "capture_of m 3 = Str ''02''"
    "capture_of m 4 = Str ''03''" "capture_of m 5 = Str ''.5''"
    using match_example by auto
  show ?thesis
    unfolding parseTimestamp_def m(1) using m(2-)
    by (simp add: StringToNumber_digits mul_examples add_examples)
qed

lemma match_negative_example:
  "\<exists>m. match TIMESTAMP_REGEXP ''-01:02:03.5'' = Some m
       \<and> map (capture_of m) [1, 2, 3, 4, 5]
           = [Str ''-'', Str ''01:'', Str ''02'', Str ''03'', Str ''.5'']"
proof -
  have "map_option (\<lambda>m. map (capture_of m) [1, 2, 3, 4, 5])
          (match TIMESTAMP_REGEXP ''-01:02:03.5'')
        = Some [Str ''-'', Str ''01:'', Str ''02'', Str ''03'', Str ''.5'']"
    by code_simp
  then show ?thesis by (cases "match TIMESTAMP_REGEXP ''-01:02:03.5''") auto
qed

lemma mul_minus_example: "mul (Fin (- 1)) (Fin 3723500) = Fin (- 3723500)"
  by (simp add: mul_def round64_def ilog_def round_half_even_def pow_int_def Let_def)

lemma parseTimestamp_negative_example:
  "parseTimestamp ''-01:02:03.5'' = Some (Fin (- 3723500))"
proof -
  obtain m where m: "match TIMESTAMP_REGEXP ''-01:02:03.5'' = Some m"
    "capture_of m 1 = Str ''-''" "capture_of m 2 = Str ''01:''" "capture_of m 3 = Str ''02''"
    "capture_of m 4 = Str ''03''" "capture_of m 5 = Str ''.5''"
    using match_negative_example by auto
  show ?thesis
    unfolding parseTimestamp_def m(1) using m(2-)
    by (simp add: StringToNumber_digits mul_examples add_examples mul_minus_example)
qed

lemma match_zero_example:
  "\<exists>m. match TIMESTAMP_REGEXP ''00:00'' = Some m
       \<and> map (capture_of m) [1, 2, 3, 4, 5] = [Str [], Undefined, Str ''00'', Str ''00'', Undefined]"
proof -
  have "map_option (\<lambda>m. map (capture_of m) [1, 2, 3, 4, 5]) (match TIMESTAMP_REGEXP ''00:00'')
        = Some [Str [], Undefined, Str ''00'', Str ''00'', Undefined]"
    by code_simp
  then show ?thesis by (cases "match TIMESTAMP_REGEXP ''00:00''") auto
qed

lemma StringToNumber_00: "StringToNumber ''00'' = Fin 0"
  by (simp add: StringToNumber_def trim_def is_ws_def decimal_literal_def is_digit_def
      digits_value_def digit_value_def pow_int_def round64_def zero_of_def Let_def)

lemma parseTimestamp_zero_example: "parseTimestamp ''00:00'' = Some (Fin 0)"
proof -
  obtain m where m: "match TIMESTAMP_REGEXP ''00:00'' = Some m"
    "capture_of m 1 = Str []" "capture_of m 2 = Undefined" "capture_of m 3 = Str ''00''"
    "capture_of m 4 = Str ''00''" "capture_of m 5 = Undefined"
    using match_zero_example by auto
  show ?thesis
    unfolding parseTimestamp_def m(1) using m(2-)
    by (simp add: StringToNumber_00 mul_def add_def round64_def zero_of_def)
qed

lemma match_not_a_time: "match TIMESTAMP_REGEXP ''not-a-time'' = None"
  by code_simp

lemma parseTimestamp_not_a_time: "parseTimestamp ''not-a-time'' = None"
  unfolding parseTimestamp_def match_not_a_time by simp

lemma parseTimestamp_None_iff: "parseTimestamp s = None \<longleftrightarrow> \<not> contains_timestamp s"
proof -
  have "parseTimestamp s = None \<longleftrightarrow> match TIMESTAMP_REGEXP s = None"
    by (simp add: parseTimestamp_def Let_def split: option.splits)
  also have "\<dots> \<longleftrightarrow> (\<forall>pre mid post. s = pre @ mid @ post \<longrightarrow> mid \<notin> lang TIMESTAMP_REGEXP)"
    by (rule match_None_iff)
  also have "\<dots> \<longleftrightarrow> \<not> contains_timestamp s"
    by (auto simp: contains_timestamp_def lang_timestamp)
  finally show ?thesis .
qed

text \<open>
  The claim C1 as stated: \<^verbatim>\<open>parseTimestamp("01:02:03.5")\<close> is 62003500. The function
  returns another number.
\<close>

theorem C1_counterexample: "parseTimestamp ''01:02:03.5'' \<noteq> Some (Fin 62003500)"
  by (simp add: parseTimestamp_example)

text \<open>
  C1, amended. For the input \<^verbatim>\<open>01:02:03.5\<close>, \<^verbatim>\<open>parseTimestamp\<close> returns 3723500, the value of
  the rule: the hour part is worth 3600000, the minutes 60000, the seconds 1000, and the
  fraction text \<^verbatim>\<open>.5\<close>, read as the number 0.5, is multiplied by 1000; a leading minus sign
  negates the result.
\<close>

theorem C1_amended:
  "parseTimestamp ''01:02:03.5'' = Some (Fin 3723500)
   \<and> (3723500 :: rat) = 1 * 3600000 + 2 * 60000 + 3 * 1000 + 1 / 2 * 1000
   \<and> parseTimestamp ''-01:02:03.5'' = Some (Fin (- 3723500))"
  by (simp add: parseTimestamp_example parseTimestamp_negative_example)

lemma timestamp_shaped_iff_rmatch:
  "timestamp_shaped s \<longleftrightarrow> [] \<in> rests (rmatch TIMESTAMP_REGEXP (s, Map.empty))"
proof -
  have "[] \<in> rests (rmatch TIMESTAMP_REGEXP (s, Map.empty))
      \<longleftrightarrow> (\<exists>p. p \<in> lang TIMESTAMP_REGEXP \<and> s = p @ [])"
    by (rule matches_langD [OF rmatch_lang])
  then show ?thesis by (simp add: lang_timestamp)
qed

lemma rmatch_embedded: "rmatch TIMESTAMP_REGEXP (''x00:00y'', Map.empty) = []"
  by code_simp

lemma not_shaped_embedded: "\<not> timestamp_shaped ''x00:00y''"
  by (simp only: timestamp_shaped_iff_rmatch rmatch_embedded rests_simps) simp

lemma match_embedded_example:
  "\<exists>m. match TIMESTAMP_REGEXP ''x00:00y'' = Some m
       \<and> map (capture_of m) [1, 2, 3, 4, 5] = [Str [], Undefined, Str ''00'', Str ''00'', Undefined]"
proof -
  have "map_option (\<lambda>m. map (capture_of m) [1, 2, 3, 4, 5]) (match TIMESTAMP_REGEXP ''x00:00y'')
        = Some [Str [], Undefined, Str ''00'', Str ''00'', Undefined]"
    by code_simp
  then show ?thesis by (cases "match TIMESTAMP_REGEXP ''x00:00y''") auto
qed

lemma parseTimestamp_embedded_example: "parseTimestamp ''x00:00y'' = Some (Fin 0)"
proof -
  obtain m where m: "match TIMESTAMP_REGEXP ''x00:00y'' = Some m"
    "capture_of m 1 = Str []" "capture_of m 2 = Undefined" "capture_of m 3 = Str ''00''"
    "capture_of m 4 = Str ''00''" "capture_of m 5 = Undefined"
    using match_embedded_example by auto
  show ?thesis
    unfolding parseTimestamp_def m(1) using m(2-)
    by (simp add: StringToNumber_00 mul_def add_def round64_def zero_of_def)
qed

text \<open>
  The claim C9 as stated: a text that is not timestamp-shaped is parsed to an absent
  result. It fails at \<^verbatim>\<open>x00:00y\<close>, which is not timestamp-shaped and is parsed to the
  number 0, since the search finds \<^verbatim>\<open>00:00\<close> inside it.
\<close>

theorem C9_counterexample:
  "\<not> timestamp_shaped ''x00:00y'' \<and> parseTimestamp ''x00:00y'' = Some (Fin 0)
   \<and> parseTimestamp ''x00:00y'' \<noteq> None"
  by (simp add: not_shaped_embedded parseTimestamp_embedded_example)

text \<open>
  C9, amended. The pattern is not anchored: a text in which no segment has the shape
  \<^verbatim>\<open>[-][HH:]MM:SS[.fraction]\<close> is parsed to an absent result, and every text that has such a
  segment is parsed to a number; the function is total, so nothing is thrown. The text
  \<^verbatim>\<open>not-a-time\<close> has no such segment and gives absence, which differs from the number 0
  that \<^verbatim>\<open>00:00\<close> gives.
\<close>

theorem C9_amended:
  "(\<not> contains_timestamp s \<longrightarrow> parseTimestamp s = None)
   \<and> (contains_timestamp s \<longrightarrow> (\<exists>n. parseTimestamp s = Some n))
   \<and> \<not> contains_timestamp ''not-a-time''
   \<and> parseTimestamp ''not-a-time'' = None
   \<and> parseTimestamp ''00:00'' = Some (Fin 0)
   \<and> parseTimestamp ''00:00'' \<noteq> None"
proof -
  have "parseTimestamp ''not-a-time'' = None"
    by (rule parseTimestamp_not_a_time)
  moreover have "\<not> contains_timestamp ''not-a-time''"
    using parseTimestamp_None_iff [of "''not-a-time''"] parseTimestamp_not_a_time by simp
  moreover have "contains_timestamp s \<longrightarrow> (\<exists>n. parseTimestamp s = Some n)"
    using parseTimestamp_None_iff [of s] by auto
  ultimately show ?thesis
    by (simp add: parseTimestamp_None_iff parseTimestamp_zero_example)
qed

text \<open>The texts \<^verbatim>\<open>not-a-time\<close> and \<^verbatim>\<open>00:00\<close>.\<close>

theorem C9_amended_witness:
  "\<not> contains_timestamp ''not-a-time'' \<and> parseTimestamp ''not-a-time'' = None
   \<and> contains_timestamp ''00:00'' \<and> (\<exists>n. parseTimestamp ''00:00'' = Some n)"
proof -
  have a: "\<not> contains_timestamp ''not-a-time''"
    using parseTimestamp_None_iff [of "''not-a-time''"]
    by (simp add: parseTimestamp_not_a_time)
  have b: "contains_timestamp ''00:00''"
    using parseTimestamp_None_iff [of "''00:00''"] by (simp add: parseTimestamp_zero_example)
  show ?thesis
    using a b C9_amended [of "''not-a-time''"] C9_amended [of "''00:00''"]
    by blast
qed

end
